theory Spec2Isabelle
  imports Complex_Main
begin

section \<open>StructNova Africa: the one-way slab design calculation of app.py\<close>

text \<open>
  The calculation is \<^verbatim>\<open>calculate_slab_design\<close> of \<^verbatim>\<open>app.py\<close>. Every exception the
  function can raise is a value of \<open>error\<close>, and the function returns \<open>error + results\<close>.
  Python integers (the results of \<^verbatim>\<open>math.ceil\<close>, \<^verbatim>\<open>math.floor\<close>, \<^verbatim>\<open>int\<close>) are \<open>int\<close>.

  Python floats are IEEE doubles, and the file has three models of them.
  \<^item> \<open>slab_locals\<close> and \<open>calculate_slab_design\<close> take the inputs as real numbers and compute
    with exact arithmetic: they describe every run whose inputs are numbers, up to the
    rounding of double arithmetic.
  \<^item> \<open>slab_locals_py\<close> and \<open>calculate_slab_design_py\<close> are the same body over \<open>pyfloat\<close>, a
    number or NaN. The range checks of the caller let NaN through, every comparison with
    NaN being false. On numbers this model agrees with the first one
    (\<open>calculate_slab_design_py_Num\<close>).
  \<^item> \<open>ultimate_load_fl\<close> and \<open>moment_fl\<close> are lines 75 and 80 with every operation rounded
    to a double by \<open>fl\<close>.
  Infinite values and overflow are in none of the models: the caller rejects infinite
  inputs, and inside its ranges no operation overflows.
\<close>

subsection \<open>Exceptions\<close>

datatype error =
    KeyError string      \<comment> \<open>a dictionary lookup with a key that is not in the table\<close>
  | ZeroDivisionError    \<comment> \<open>float division by zero\<close>
  | ValueError           \<comment> \<open>\<^verbatim>\<open>math.sqrt\<close> of a negative number, \<^verbatim>\<open>min\<close>/\<^verbatim>\<open>max\<close> of an empty list\<close>
  | TypeError            \<comment> \<open>ordering comparison of a complex number inside \<^verbatim>\<open>min\<close>\<close>

definition ebind :: "error + 'a \<Rightarrow> ('a \<Rightarrow> error + 'b) \<Rightarrow> error + 'b" where
  "ebind m f = (case m of Inl e \<Rightarrow> Inl e | Inr v \<Rightarrow> f v)"

definition lookup :: "(string \<rightharpoonup> 'v) \<Rightarrow> string \<Rightarrow> error + 'v" where
  "lookup table k = (case table k of None \<Rightarrow> Inl (KeyError k) | Some v \<Rightarrow> Inr v)"

definition py_div :: "real \<Rightarrow> real \<Rightarrow> error + real" where
  "py_div x y = (if y = 0 then Inl ZeroDivisionError else Inr (x / y))"

definition py_sqrt :: "real \<Rightarrow> error + real" where
  "py_sqrt x = (if x < 0 then Inl ValueError else Inr (sqrt x))"

text \<open>\<^verbatim>\<open>int(x)\<close> on a float truncates towards zero.\<close>

definition py_int :: "real \<Rightarrow> int" where
  "py_int x = (if 0 \<le> x then \<lfloor>x\<rfloor> else \<lceil>x\<rceil>)"

text \<open>\<^verbatim>\<open>round(x, n)\<close>: the nearest multiple of \<open>10 ^ -n\<close>, a tie going to the even one.\<close>

definition round_half_even :: "real \<Rightarrow> int" where
  "round_half_even y =
     (let f = \<lfloor>y\<rfloor>; r = y - of_int f
      in if r < 1 / 2 then f else if 1 / 2 < r then f + 1 else if even f then f else f + 1)"

definition py_round :: "real \<Rightarrow> nat \<Rightarrow> real" where
  "py_round x n = of_int (round_half_even (x * 10 ^ n)) / 10 ^ n"

text \<open>
  \<^verbatim>\<open>min(xs, key=f)\<close> and \<^verbatim>\<open>max(xs, key=f)\<close> keep the first element whose key is
  minimal (maximal): a later element replaces the current best only when its key is
  strictly smaller (greater). On an empty list they raise \<^verbatim>\<open>ValueError\<close>.
\<close>

definition py_min_by :: "('a \<Rightarrow> real) \<Rightarrow> 'a list \<Rightarrow> error + 'a" where
  "py_min_by key xs =
     (case xs of [] \<Rightarrow> Inl ValueError
      | x # rest \<Rightarrow> Inr (foldl (\<lambda>best y. if key y < key best then y else best) x rest))"

definition py_max_by :: "('a \<Rightarrow> real) \<Rightarrow> 'a list \<Rightarrow> error + 'a" where
  "py_max_by key xs =
     (case xs of [] \<Rightarrow> Inl ValueError
      | x # rest \<Rightarrow> Inr (foldl (\<lambda>best y. if key best < key y then y else best) x rest))"

text \<open>The decimal digits of \<^verbatim>\<open>str(n)\<close>, for the f-string of the suggestion label.\<close>

fun digits :: "nat \<Rightarrow> string" where
  "digits n =
     (if n < 10 then [char_of (48 + n)] else digits (n div 10) @ [char_of (48 + n mod 10)])"

definition str_int :: "int \<Rightarrow> string" where
  "str_int i = (if i < 0 then CHR ''-'' # digits (nat (- i)) else digits (nat i))"

subsection \<open>Material tables\<close>

record concrete_props =
  fck :: int
  fctm :: real

record steel_props =
  fy :: int
  Es :: int

definition CONCRETE_GRADES :: "string \<rightharpoonup> concrete_props" where
  "CONCRETE_GRADES = map_of
     [(''C20'', \<lparr>fck = 20, fctm = 2.2\<rparr>),
      (''C25'', \<lparr>fck = 25, fctm = 2.6\<rparr>),
      (''C30'', \<lparr>fck = 30, fctm = 2.9\<rparr>),
      (''C35'', \<lparr>fck = 35, fctm = 3.2\<rparr>),
      (''C40'', \<lparr>fck = 40, fctm = 3.5\<rparr>)]"

definition STEEL_GRADES :: "string \<rightharpoonup> steel_props" where
  "STEEL_GRADES = map_of
     [(''460'', \<lparr>fy = 460, Es = 200000\<rparr>),
      (''500'', \<lparr>fy = 500, Es = 200000\<rparr>)]"

text \<open>The bar table is iterated with \<^verbatim>\<open>.items()\<close>, in insertion order.\<close>

definition BAR_AREAS :: "(string \<times> real) list" where
  "BAR_AREAS =
     [(''Y8'', 50.3), (''Y10'', 78.5), (''Y12'', 113.1),
      (''Y16'', 201.1), (''Y20'', 314.2), (''Y25'', 490.9)]"

subsection \<open>Reinforcement candidates (step 10)\<close>

record reinforcement_option =
  o_bar_size :: string
  o_bar_area :: real
  o_spacing :: int
  o_As_actual :: real      \<comment> \<open>stored rounded to one decimal\<close>
  o_adequate :: bool

text \<open>
  The rounding of the raw spacing down to a multiple of 25 mm and its clamp into
  75..300 (lines 143 and 144).
\<close>

definition spacing_practical :: "real \<Rightarrow> int" where
  "spacing_practical spacing = max 75 (min (\<lfloor>spacing / 25\<rfloor> * 25) 300)"

text \<open>
  The loop over \<^verbatim>\<open>BAR_AREAS.items()\<close> (lines 138 to 154): the list built so far is the
  accumulator; a bar is evaluated only under the guard \<^verbatim>\<open>As_provided > 0\<close>.
\<close>

fun options_loop ::
  "real \<Rightarrow> real \<Rightarrow> (string \<times> real) list \<Rightarrow> reinforcement_option list
     \<Rightarrow> error + reinforcement_option list" where
  "options_loop As_provided As_required [] acc = Inr acc"
| "options_loop As_provided As_required ((bar_size, bar_area) # rest) acc =
     (if As_provided > 0 then
        ebind (py_div (bar_area * 1000) As_provided) (\<lambda>spacing.
        ebind (py_div (bar_area * 1000) (of_int (spacing_practical spacing))) (\<lambda>As_actual.
        options_loop As_provided As_required rest
          (acc @ [\<lparr>o_bar_size = bar_size, o_bar_area = bar_area,
                   o_spacing = spacing_practical spacing,
                   o_As_actual = py_round As_actual 1,
                   o_adequate = (As_actual \<ge> As_required)\<rparr>])))
      else options_loop As_provided As_required rest acc)"

text \<open>The selection (lines 157 to 161).\<close>

definition select_option :: "reinforcement_option list \<Rightarrow> error + reinforcement_option" where
  "select_option reinforcement_options =
     (let adequate_options = filter o_adequate reinforcement_options
      in if adequate_options \<noteq> [] then py_min_by o_bar_area adequate_options
         else py_max_by o_As_actual reinforcement_options)"

text \<open>
  The candidate that one round of the loop appends for a bar when neither division
  fails; \<open>options_loop_pos\<close> below shows that this is what the loop computes.
\<close>

definition evaluate_bar :: "real \<Rightarrow> real \<Rightarrow> string \<times> real \<Rightarrow> reinforcement_option" where
  "evaluate_bar As_provided As_required item =
     (let sp = spacing_practical (snd item * 1000 / As_provided)
      in \<lparr>o_bar_size = fst item, o_bar_area = snd item, o_spacing = sp,
          o_As_actual = py_round (snd item * 1000 / of_int sp) 1,
          o_adequate = (As_required \<le> snd item * 1000 / of_int sp)\<rparr>)"

subsection \<open>The steps of the calculation\<close>

definition K_prime :: real where
  "K_prime = 0.156"

text \<open>Step 7 (lines 112 to 116).\<close>

definition lever_arm :: "real \<Rightarrow> real \<Rightarrow> error + real" where
  "lever_arm K d =
     (if K \<le> K_prime then
        ebind (py_sqrt (0.25 - K / 1.134)) (\<lambda>s. Inr (min (d * (0.5 + s)) (0.95 * d)))
      else Inr (0.95 * d))"

text \<open>Step 11, the modification factor (lines 171 to 177).\<close>

definition modification_factor ::
  "real \<Rightarrow> real \<Rightarrow> real \<Rightarrow> real \<Rightarrow> real \<Rightarrow> error + real" where
  "modification_factor As_provided As_required fy_v moment d =
     (if As_provided > 0 \<and> As_required > 0 then
        ebind (py_div (2 * fy_v * As_required) (3 * As_provided)) (\<lambda>fs.
        ebind (py_div (moment * 1000000) (1000 * d ^ 2)) (\<lambda>q.
        ebind (py_div (477 - fs) (120 * (0.9 + q))) (\<lambda>t.
        Inr (max 0.9 (min 2.0 (0.55 + t))))))
      else Inr 1.0)"

text \<open>
  Step 12, the concrete shear strength (lines 195 to 200). A negative float raised to
  a non-integer power is a complex number in Python 3, and the \<^verbatim>\<open>min\<close> that follows
  then raises \<^verbatim>\<open>TypeError\<close>, since complex numbers are not ordered.
\<close>

definition concrete_shear_strength :: "real \<Rightarrow> real \<Rightarrow> real \<Rightarrow> error + real" where
  "concrete_shear_strength As_provided d fck_v =
     (if As_provided > 0 then
        ebind (py_div (100 * As_provided) (1000 * d)) (\<lambda>rho.
        ebind (py_div 400 d) (\<lambda>q.
        ebind (py_sqrt fck_v) (\<lambda>s.
        if rho < 0 \<or> q < 0 then Inl TypeError
        else Inr (min (0.79 * (rho powr (1 / 3)) * (q powr (1 / 4)) / 1.25) (0.8 * s)))))
      else Inr 0.4)"

subsection \<open>The local variables of the function\<close>

record locals =
  l_fck :: int
  l_fy :: int
  l_ultimate_load :: real
  l_moment :: real
  l_estimated_depth :: real
  l_slab_depth :: int
  l_effective_depth :: real
  l_K :: real
  l_z :: real
  l_As_required :: real
  l_As_min :: real
  l_As_provided :: real
  l_reinforcement_options :: "reinforcement_option list"
  l_selected :: reinforcement_option
  l_mf :: real
  l_allowable_span_depth :: real
  l_actual_span_depth :: real
  l_V :: real
  l_vc :: real
  l_shear_stress :: real

text \<open>
  The body of \<^verbatim>\<open>calculate_slab_design\<close>, statement by statement, with the values of
  its local variables when it reaches \<^verbatim>\<open>return\<close>. The first exception ends it.
  (\<open>span\<close> is a constant of the library, so the first parameter is \<open>span_m\<close>.)
\<close>

definition slab_locals ::
  "real \<Rightarrow> real \<Rightarrow> real \<Rightarrow> string \<Rightarrow> string \<Rightarrow> real \<Rightarrow> error + locals" where
  "slab_locals span_m dead_load live_load concrete_grade steel_grade cover =
     ebind (lookup CONCRETE_GRADES concrete_grade) (\<lambda>cp.
     ebind (lookup STEEL_GRADES steel_grade) (\<lambda>sp.
     let fck_v = fck cp;
         fy_v = fy sp;
         ultimate_load = (1.4 * dead_load) + (1.6 * live_load);
         moment = (ultimate_load * span_m ^ 2) / 8;
         estimated_depth = (span_m * 1000) / 25;
         slab_depth = \<lceil>estimated_depth / 25\<rceil> * 25;
         assumed_bar_dia = 12;
         effective_depth = of_int slab_depth - cover - (assumed_bar_dia / 2);
         b = 1000;
         d = effective_depth
     in
     ebind (py_div (moment * 1000000) (b * d ^ 2 * of_int fck_v)) (\<lambda>K.
     ebind (lever_arm K d) (\<lambda>z.
     ebind (py_div (moment * 1000000) (0.87 * of_int fy_v * z)) (\<lambda>As_required.
     let As_min = 0.0013 * b * of_int slab_depth;
         As_provided = max As_required As_min
     in
     ebind (options_loop As_provided As_required BAR_AREAS []) (\<lambda>reinforcement_options.
     ebind (select_option reinforcement_options) (\<lambda>selected.
     ebind (modification_factor As_provided As_required (of_int fy_v) moment d) (\<lambda>mf.
     ebind (py_div (span_m * 1000) (of_int slab_depth)) (\<lambda>actual_span_depth.
     let V = (ultimate_load * span_m) / 2 in
     ebind (concrete_shear_strength As_provided d (of_int fck_v)) (\<lambda>vc.
     ebind (py_div (V * 1000) (b * d)) (\<lambda>shear_stress.
     Inr \<lparr>l_fck = fck_v, l_fy = fy_v,
          l_ultimate_load = ultimate_load, l_moment = moment,
          l_estimated_depth = estimated_depth, l_slab_depth = slab_depth,
          l_effective_depth = effective_depth,
          l_K = K, l_z = z,
          l_As_required = As_required, l_As_min = As_min, l_As_provided = As_provided,
          l_reinforcement_options = reinforcement_options, l_selected = selected,
          l_mf = mf, l_allowable_span_depth = 26 * mf,
          l_actual_span_depth = actual_span_depth,
          l_V = V, l_vc = vc, l_shear_stress = shear_stress\<rparr>)))))))))))"

subsection \<open>The returned dictionary\<close>

record results =
  r_span :: real
  r_dead_load :: real
  r_live_load :: real
  r_concrete_grade :: string
  r_steel_grade :: string
  r_cover :: real
  r_fck :: int
  r_fy :: int
  r_load_factor_dead :: real
  r_load_factor_live :: real
  r_ultimate_load :: real
  r_moment :: real
  r_moment_knm :: real
  r_slab_depth :: int
  r_effective_depth :: int
  r_assumed_bar_dia :: int
  r_K :: real
  r_K_prime :: real
  r_compression_reinforcement_needed :: bool
  r_lever_arm :: real
  r_As_required :: real
  r_As_min :: real
  r_As_provided :: real
  r_reinforcement_options :: "reinforcement_option list"
  r_selected_reinforcement :: reinforcement_option
  r_reinforcement_suggestion :: string
  r_basic_span_depth_ratio :: int
  r_modification_factor :: real
  r_allowable_span_depth :: real
  r_actual_span_depth :: real
  r_deflection_ok :: bool
  r_shear_force :: real
  r_concrete_shear_strength :: real
  r_shear_ok :: bool

text \<open>
  What each key of \<^verbatim>\<open>results\<close> holds, from the local variables: the rounding happens
  only here, where a value is stored.
\<close>

definition results_of ::
  "real \<Rightarrow> real \<Rightarrow> real \<Rightarrow> string \<Rightarrow> string \<Rightarrow> real \<Rightarrow> locals \<Rightarrow> results" where
  "results_of span_m dead_load live_load concrete_grade steel_grade cover L =
     \<lparr>r_span = span_m, r_dead_load = dead_load, r_live_load = live_load,
      r_concrete_grade = concrete_grade, r_steel_grade = steel_grade, r_cover = cover,
      r_fck = l_fck L, r_fy = l_fy L,
      r_load_factor_dead = 1.4, r_load_factor_live = 1.6,
      r_ultimate_load = py_round (l_ultimate_load L) 2,
      r_moment = py_round (l_moment L) 2,
      r_moment_knm = py_round (l_moment L) 2,
      r_slab_depth = l_slab_depth L,
      r_effective_depth = py_int (l_effective_depth L),
      r_assumed_bar_dia = 12,
      r_K = py_round (l_K L) 4,
      r_K_prime = K_prime,
      r_compression_reinforcement_needed = (l_K L > K_prime),
      r_lever_arm = py_round (l_z L) 1,
      r_As_required = py_round (l_As_required L) 1,
      r_As_min = py_round (l_As_min L) 1,
      r_As_provided = py_round (l_As_provided L) 1,
      r_reinforcement_options = l_reinforcement_options L,
      r_selected_reinforcement = l_selected L,
      r_reinforcement_suggestion =
        o_bar_size (l_selected L) @ '' @ '' @ str_int (o_spacing (l_selected L)) @ ''mm c/c'',
      r_basic_span_depth_ratio = 26,
      r_modification_factor = py_round (l_mf L) 2,
      r_allowable_span_depth = py_round (l_allowable_span_depth L) 1,
      r_actual_span_depth = py_round (l_actual_span_depth L) 1,
      r_deflection_ok = (l_actual_span_depth L \<le> l_allowable_span_depth L),
      r_shear_force = py_round (l_V L) 2,
      r_concrete_shear_strength = py_round (l_vc L) 2,
      r_shear_ok = (l_shear_stress L \<le> l_vc L)\<rparr>"

definition calculate_slab_design ::
  "real \<Rightarrow> real \<Rightarrow> real \<Rightarrow> string \<Rightarrow> string \<Rightarrow> real \<Rightarrow> error + results" where
  "calculate_slab_design span_m dead_load live_load concrete_grade steel_grade cover =
     ebind (slab_locals span_m dead_load live_load concrete_grade steel_grade cover)
       (\<lambda>L. Inr (results_of span_m dead_load live_load concrete_grade steel_grade cover L))"

subsection \<open>Floats that may be NaN\<close>

text \<open>
  A Python float is a number or NaN. Arithmetic on NaN gives NaN, every comparison with NaN
  is false, \<^verbatim>\<open>x / 0.0\<close> raises also for NaN \<open>x\<close>, \<^verbatim>\<open>math.ceil\<close>, \<^verbatim>\<open>math.floor\<close> and
  \<^verbatim>\<open>int\<close> raise \<^verbatim>\<open>ValueError\<close> on NaN, and \<^verbatim>\<open>math.sqrt\<close> and \<^verbatim>\<open>round(x, n)\<close> return
  NaN. \<open>fdivc\<close> is the division by a literal that is not zero.
\<close>

datatype pyfloat = Num real | NaN

fun fadd :: "pyfloat \<Rightarrow> pyfloat \<Rightarrow> pyfloat" where
  "fadd (Num x) (Num y) = Num (x + y)"
| "fadd _ _ = NaN"

fun fsub :: "pyfloat \<Rightarrow> pyfloat \<Rightarrow> pyfloat" where
  "fsub (Num x) (Num y) = Num (x - y)"
| "fsub _ _ = NaN"

fun fmul :: "pyfloat \<Rightarrow> pyfloat \<Rightarrow> pyfloat" where
  "fmul (Num x) (Num y) = Num (x * y)"
| "fmul _ _ = NaN"

fun fdiv :: "pyfloat \<Rightarrow> pyfloat \<Rightarrow> error + pyfloat" where
  "fdiv (Num x) (Num y) = (if y = 0 then Inl ZeroDivisionError else Inr (Num (x / y)))"
| "fdiv NaN (Num y) = (if y = 0 then Inl ZeroDivisionError else Inr NaN)"
| "fdiv _ NaN = Inr NaN"

fun fdivc :: "pyfloat \<Rightarrow> real \<Rightarrow> pyfloat" where
  "fdivc (Num x) c = Num (x / c)"
| "fdivc NaN c = NaN"

fun flt :: "pyfloat \<Rightarrow> pyfloat \<Rightarrow> bool" where
  "flt (Num x) (Num y) = (x < y)"
| "flt _ _ = False"

fun fle :: "pyfloat \<Rightarrow> pyfloat \<Rightarrow> bool" where
  "fle (Num x) (Num y) = (x \<le> y)"
| "fle _ _ = False"

text \<open>
  \<^verbatim>\<open>max(a, b)\<close> keeps \<open>a\<close> unless \<open>b > a\<close>, and \<^verbatim>\<open>min(a, b)\<close> keeps \<open>a\<close> unless
  \<open>b < a\<close>: \<^verbatim>\<open>max(nan, 227.5)\<close> is NaN and \<^verbatim>\<open>max(227.5, nan)\<close> is 227.5.
\<close>

definition fmax :: "pyfloat \<Rightarrow> pyfloat \<Rightarrow> pyfloat" where
  "fmax a b = (if flt a b then b else a)"

definition fmin :: "pyfloat \<Rightarrow> pyfloat \<Rightarrow> pyfloat" where
  "fmin a b = (if flt b a then b else a)"

fun fsqrt :: "pyfloat \<Rightarrow> error + pyfloat" where
  "fsqrt (Num x) = (if x < 0 then Inl ValueError else Inr (Num (sqrt x)))"
| "fsqrt NaN = Inr NaN"

fun fceil :: "pyfloat \<Rightarrow> error + int" where
  "fceil (Num x) = Inr \<lceil>x\<rceil>"
| "fceil NaN = Inl ValueError"

fun ffloor :: "pyfloat \<Rightarrow> error + int" where
  "ffloor (Num x) = Inr \<lfloor>x\<rfloor>"
| "ffloor NaN = Inl ValueError"

fun fint :: "pyfloat \<Rightarrow> error + int" where
  "fint (Num x) = Inr (py_int x)"
| "fint NaN = Inl ValueError"

fun fround :: "pyfloat \<Rightarrow> nat \<Rightarrow> pyfloat" where
  "fround (Num x) n = Num (py_round x n)"
| "fround NaN n = NaN"

fun fsquare :: "pyfloat \<Rightarrow> pyfloat" where
  "fsquare (Num x) = Num (x ^ 2)"
| "fsquare NaN = NaN"

fun fpowr :: "pyfloat \<Rightarrow> real \<Rightarrow> pyfloat" where
  "fpowr (Num x) y = Num (x powr y)"
| "fpowr NaN y = NaN"

subsection \<open>The function on floats that may be NaN\<close>

text \<open>
  The same statements as above, in the same order. The candidates hold numbers only: the
  bar area comes from the table and the spacing is an integer. \<^verbatim>\<open>int(effective_depth)\<close> of
  line 95 can raise here, so it is a step of the body, before the K value.
\<close>

fun options_loop_py ::
  "pyfloat \<Rightarrow> pyfloat \<Rightarrow> (string \<times> real) list \<Rightarrow> reinforcement_option list
     \<Rightarrow> error + reinforcement_option list" where
  "options_loop_py As_provided As_required [] acc = Inr acc"
| "options_loop_py As_provided As_required ((bar_size, bar_area) # rest) acc =
     (if flt (Num 0) As_provided then
        ebind (fdiv (Num (bar_area * 1000)) As_provided) (\<lambda>spacing.
        ebind (ffloor (fdivc spacing 25)) (\<lambda>n.
        let spacing_practical = max 75 (min (n * 25) 300) in
        ebind (py_div (bar_area * 1000) (of_int spacing_practical)) (\<lambda>As_actual.
        options_loop_py As_provided As_required rest
          (acc @ [\<lparr>o_bar_size = bar_size, o_bar_area = bar_area,
                   o_spacing = spacing_practical,
                   o_As_actual = py_round As_actual 1,
                   o_adequate = fle As_required (Num As_actual)\<rparr>]))))
      else options_loop_py As_provided As_required rest acc)"

definition lever_arm_py :: "pyfloat \<Rightarrow> pyfloat \<Rightarrow> error + pyfloat" where
  "lever_arm_py K d =
     (if fle K (Num K_prime) then
        ebind (fsqrt (fsub (Num 0.25) (fdivc K 1.134))) (\<lambda>s.
        Inr (fmin (fmul d (fadd (Num 0.5) s)) (fmul (Num 0.95) d)))
      else Inr (fmul (Num 0.95) d))"

definition modification_factor_py ::
  "pyfloat \<Rightarrow> pyfloat \<Rightarrow> real \<Rightarrow> pyfloat \<Rightarrow> pyfloat \<Rightarrow> error + pyfloat" where
  "modification_factor_py As_provided As_required fy_v moment d =
     (if flt (Num 0) As_provided \<and> flt (Num 0) As_required then
        ebind (fdiv (fmul (Num (2 * fy_v)) As_required) (fmul (Num 3) As_provided)) (\<lambda>fs.
        ebind (fdiv (fmul moment (Num 1000000)) (fmul (Num 1000) (fsquare d))) (\<lambda>q.
        ebind (fdiv (fsub (Num 477) fs) (fmul (Num 120) (fadd (Num 0.9) q))) (\<lambda>t.
        Inr (fmax (Num 0.9) (fmin (Num 2.0) (fadd (Num 0.55) t))))))
      else Inr (Num 1.0))"

definition concrete_shear_strength_py :: "pyfloat \<Rightarrow> pyfloat \<Rightarrow> real \<Rightarrow> error + pyfloat" where
  "concrete_shear_strength_py As_provided d fck_v =
     (if flt (Num 0) As_provided then
        ebind (fdiv (fmul (Num 100) As_provided) (fmul (Num 1000) d)) (\<lambda>rho.
        ebind (fdiv (Num 400) d) (\<lambda>q.
        ebind (py_sqrt fck_v) (\<lambda>s.
        if flt rho (Num 0) \<or> flt q (Num 0) then Inl TypeError
        else Inr (fmin (fdivc (fmul (fmul (Num 0.79) (fpowr rho (1 / 3))) (fpowr q (1 / 4))) 1.25)
                       (Num (0.8 * s))))))
      else Inr (Num 0.4))"

record locals_py =
  p_fck :: int
  p_fy :: int
  p_ultimate_load :: pyfloat
  p_moment :: pyfloat
  p_estimated_depth :: pyfloat
  p_slab_depth :: int
  p_effective_depth :: pyfloat
  p_effective_depth_int :: int
  p_K :: pyfloat
  p_z :: pyfloat
  p_As_required :: pyfloat
  p_As_min :: pyfloat
  p_As_provided :: pyfloat
  p_reinforcement_options :: "reinforcement_option list"
  p_selected :: reinforcement_option
  p_mf :: pyfloat
  p_allowable_span_depth :: pyfloat
  p_actual_span_depth :: pyfloat
  p_V :: pyfloat
  p_vc :: pyfloat
  p_shear_stress :: pyfloat

definition slab_locals_py ::
  "pyfloat \<Rightarrow> pyfloat \<Rightarrow> pyfloat \<Rightarrow> string \<Rightarrow> string \<Rightarrow> pyfloat \<Rightarrow> error + locals_py" where
  "slab_locals_py span_m dead_load live_load concrete_grade steel_grade cover =
     ebind (lookup CONCRETE_GRADES concrete_grade) (\<lambda>cp.
     ebind (lookup STEEL_GRADES steel_grade) (\<lambda>sp.
     let fck_v = fck cp;
         fy_v = fy sp;
         ultimate_load = fadd (fmul (Num 1.4) dead_load) (fmul (Num 1.6) live_load);
         moment = fdivc (fmul ultimate_load (fsquare span_m)) 8;
         estimated_depth = fdivc (fmul span_m (Num 1000)) 25
     in
     ebind (fceil (fdivc estimated_depth 25)) (\<lambda>n.
     let slab_depth = n * 25;
         effective_depth = fsub (fsub (Num (of_int slab_depth)) cover) (Num (12 / 2));
         d = effective_depth
     in
     ebind (fint effective_depth) (\<lambda>effective_depth_int.
     ebind (fdiv (fmul moment (Num 1000000))
                 (fmul (fmul (Num 1000) (fsquare d)) (Num (of_int fck_v)))) (\<lambda>K.
     ebind (lever_arm_py K d) (\<lambda>z.
     ebind (fdiv (fmul moment (Num 1000000)) (fmul (Num (0.87 * of_int fy_v)) z)) (\<lambda>As_required.
     let As_min = Num (0.0013 * 1000 * of_int slab_depth);
         As_provided = fmax As_required As_min
     in
     ebind (options_loop_py As_provided As_required BAR_AREAS []) (\<lambda>reinforcement_options.
     ebind (select_option reinforcement_options) (\<lambda>selected.
     ebind (modification_factor_py As_provided As_required (of_int fy_v) moment d) (\<lambda>mf.
     ebind (fdiv (fmul span_m (Num 1000)) (Num (of_int slab_depth))) (\<lambda>actual_span_depth.
     let V = fdivc (fmul ultimate_load span_m) 2 in
     ebind (concrete_shear_strength_py As_provided d (of_int fck_v)) (\<lambda>vc.
     ebind (fdiv (fmul V (Num 1000)) (fmul (Num 1000) d)) (\<lambda>shear_stress.
     Inr \<lparr>p_fck = fck_v, p_fy = fy_v,
          p_ultimate_load = ultimate_load, p_moment = moment,
          p_estimated_depth = estimated_depth, p_slab_depth = slab_depth,
          p_effective_depth = effective_depth,
          p_effective_depth_int = effective_depth_int,
          p_K = K, p_z = z,
          p_As_required = As_required, p_As_min = As_min, p_As_provided = As_provided,
          p_reinforcement_options = reinforcement_options, p_selected = selected,
          p_mf = mf, p_allowable_span_depth = fmul (Num 26) mf,
          p_actual_span_depth = actual_span_depth,
          p_V = V, p_vc = vc, p_shear_stress = shear_stress\<rparr>)))))))))))))"

record results_py =
  q_span :: pyfloat
  q_dead_load :: pyfloat
  q_live_load :: pyfloat
  q_concrete_grade :: string
  q_steel_grade :: string
  q_cover :: pyfloat
  q_fck :: int
  q_fy :: int
  q_load_factor_dead :: pyfloat
  q_load_factor_live :: pyfloat
  q_ultimate_load :: pyfloat
  q_moment :: pyfloat
  q_moment_knm :: pyfloat
  q_slab_depth :: int
  q_effective_depth :: int
  q_assumed_bar_dia :: int
  q_K :: pyfloat
  q_K_prime :: pyfloat
  q_compression_reinforcement_needed :: bool
  q_lever_arm :: pyfloat
  q_As_required :: pyfloat
  q_As_min :: pyfloat
  q_As_provided :: pyfloat
  q_reinforcement_options :: "reinforcement_option list"
  q_selected_reinforcement :: reinforcement_option
  q_reinforcement_suggestion :: string
  q_basic_span_depth_ratio :: int
  q_modification_factor :: pyfloat
  q_allowable_span_depth :: pyfloat
  q_actual_span_depth :: pyfloat
  q_deflection_ok :: bool
  q_shear_force :: pyfloat
  q_concrete_shear_strength :: pyfloat
  q_shear_ok :: bool

definition results_py_of ::
  "pyfloat \<Rightarrow> pyfloat \<Rightarrow> pyfloat \<Rightarrow> string \<Rightarrow> string \<Rightarrow> pyfloat \<Rightarrow> locals_py \<Rightarrow> results_py" where
  "results_py_of span_m dead_load live_load concrete_grade steel_grade cover L =
     \<lparr>q_span = span_m, q_dead_load = dead_load, q_live_load = live_load,
      q_concrete_grade = concrete_grade, q_steel_grade = steel_grade, q_cover = cover,
      q_fck = p_fck L, q_fy = p_fy L,
      q_load_factor_dead = Num 1.4, q_load_factor_live = Num 1.6,
      q_ultimate_load = fround (p_ultimate_load L) 2,
      q_moment = fround (p_moment L) 2,
      q_moment_knm = fround (p_moment L) 2,
      q_slab_depth = p_slab_depth L,
      q_effective_depth = p_effective_depth_int L,
      q_assumed_bar_dia = 12,
      q_K = fround (p_K L) 4,
      q_K_prime = Num K_prime,
      q_compression_reinforcement_needed = flt (Num K_prime) (p_K L),
      q_lever_arm = fround (p_z L) 1,
      q_As_required = fround (p_As_required L) 1,
      q_As_min = fround (p_As_min L) 1,
      q_As_provided = fround (p_As_provided L) 1,
      q_reinforcement_options = p_reinforcement_options L,
      q_selected_reinforcement = p_selected L,
      q_reinforcement_suggestion =
        o_bar_size (p_selected L) @ '' @ '' @ str_int (o_spacing (p_selected L)) @ ''mm c/c'',
      q_basic_span_depth_ratio = 26,
      q_modification_factor = fround (p_mf L) 2,
      q_allowable_span_depth = fround (p_allowable_span_depth L) 1,
      q_actual_span_depth = fround (p_actual_span_depth L) 1,
      q_deflection_ok = fle (p_actual_span_depth L) (p_allowable_span_depth L),
      q_shear_force = fround (p_V L) 2,
      q_concrete_shear_strength = fround (p_vc L) 2,
      q_shear_ok = fle (p_shear_stress L) (p_vc L)\<rparr>"

definition calculate_slab_design_py ::
  "pyfloat \<Rightarrow> pyfloat \<Rightarrow> pyfloat \<Rightarrow> string \<Rightarrow> string \<Rightarrow> pyfloat \<Rightarrow> error + results_py" where
  "calculate_slab_design_py span_m dead_load live_load concrete_grade steel_grade cover =
     ebind (slab_locals_py span_m dead_load live_load concrete_grade steel_grade cover)
       (\<lambda>L. Inr (results_py_of span_m dead_load live_load concrete_grade steel_grade cover L))"

text \<open>The locals and the results of the exact model, read as floats.\<close>

definition lift_locals :: "locals \<Rightarrow> locals_py" where
  "lift_locals L =
     \<lparr>p_fck = l_fck L, p_fy = l_fy L,
      p_ultimate_load = Num (l_ultimate_load L), p_moment = Num (l_moment L),
      p_estimated_depth = Num (l_estimated_depth L), p_slab_depth = l_slab_depth L,
      p_effective_depth = Num (l_effective_depth L),
      p_effective_depth_int = py_int (l_effective_depth L),
      p_K = Num (l_K L), p_z = Num (l_z L),
      p_As_required = Num (l_As_required L), p_As_min = Num (l_As_min L),
      p_As_provided = Num (l_As_provided L),
      p_reinforcement_options = l_reinforcement_options L, p_selected = l_selected L,
      p_mf = Num (l_mf L), p_allowable_span_depth = Num (l_allowable_span_depth L),
      p_actual_span_depth = Num (l_actual_span_depth L),
      p_V = Num (l_V L), p_vc = Num (l_vc L), p_shear_stress = Num (l_shear_stress L)\<rparr>"

definition lift_results :: "results \<Rightarrow> results_py" where
  "lift_results r =
     \<lparr>q_span = Num (r_span r), q_dead_load = Num (r_dead_load r), q_live_load = Num (r_live_load r),
      q_concrete_grade = r_concrete_grade r, q_steel_grade = r_steel_grade r,
      q_cover = Num (r_cover r),
      q_fck = r_fck r, q_fy = r_fy r,
      q_load_factor_dead = Num (r_load_factor_dead r),
      q_load_factor_live = Num (r_load_factor_live r),
      q_ultimate_load = Num (r_ultimate_load r),
      q_moment = Num (r_moment r),
      q_moment_knm = Num (r_moment_knm r),
      q_slab_depth = r_slab_depth r,
      q_effective_depth = r_effective_depth r,
      q_assumed_bar_dia = r_assumed_bar_dia r,
      q_K = Num (r_K r),
      q_K_prime = Num (r_K_prime r),
      q_compression_reinforcement_needed = r_compression_reinforcement_needed r,
      q_lever_arm = Num (r_lever_arm r),
      q_As_required = Num (r_As_required r),
      q_As_min = Num (r_As_min r),
      q_As_provided = Num (r_As_provided r),
      q_reinforcement_options = r_reinforcement_options r,
      q_selected_reinforcement = r_selected_reinforcement r,
      q_reinforcement_suggestion = r_reinforcement_suggestion r,
      q_basic_span_depth_ratio = r_basic_span_depth_ratio r,
      q_modification_factor = Num (r_modification_factor r),
      q_allowable_span_depth = Num (r_allowable_span_depth r),
      q_actual_span_depth = Num (r_actual_span_depth r),
      q_deflection_ok = r_deflection_ok r,
      q_shear_force = Num (r_shear_force r),
      q_concrete_shear_strength = Num (r_concrete_shear_strength r),
      q_shear_ok = r_shear_ok r\<rparr>"

subsection \<open>Lines 75 to 81 with double rounding\<close>

text \<open>
  \<open>fl x\<close> is the double nearest to \<open>x\<close>, a tie going to the even significand: 53
  significant bits, the exponent not below -1022 (so that the spacing of the subnormal
  numbers is \<open>2 ^ -1074\<close>). Each of \<^verbatim>\<open>+\<close>, \<^verbatim>\<open>*\<close> and \<^verbatim>\<open>/\<close> returns \<open>fl\<close> of the exact
  result, and the literals 1.4 and 1.6 are the doubles \<open>fl 1.4\<close> and \<open>fl 1.6\<close>.
\<close>

definition fl_exponent :: "real \<Rightarrow> int" where
  "fl_exponent x = max \<lfloor>log 2 \<bar>x\<bar>\<rfloor> (- 1022)"

definition fl_ulp :: "real \<Rightarrow> real" where
  "fl_ulp x = 2 powr (of_int (fl_exponent x) - 52)"

definition fl :: "real \<Rightarrow> real" where
  "fl x = (if x = 0 then 0 else of_int (round_half_even (x / fl_ulp x)) * fl_ulp x)"

definition ultimate_load_fl :: "real \<Rightarrow> real \<Rightarrow> real" where
  "ultimate_load_fl dead_load live_load =
     fl (fl (fl 1.4 * dead_load) + fl (fl 1.6 * live_load))"

text \<open>
  \<^verbatim>\<open>span ** 2\<close> is computed by the \<^verbatim>\<open>pow\<close> of the C library, whose result is close to the
  exact square but not always the nearest double. It is the parameter \<open>pow2\<close> of the model.
\<close>

definition moment_fl :: "(real \<Rightarrow> real) \<Rightarrow> real \<Rightarrow> real \<Rightarrow> real \<Rightarrow> real" where
  "moment_fl pow2 span_m dead_load live_load =
     (let ultimate_load = ultimate_load_fl dead_load live_load
      in fl (fl (ultimate_load * pow2 span_m) / 8))"

text \<open>\<^verbatim>\<open>round(x, n)\<close> on a double: the double nearest to the decimal rounding.\<close>

definition round_fl :: "real \<Rightarrow> nat \<Rightarrow> real" where
  "round_fl x n = fl (py_round x n)"

section \<open>Properties\<close>

subsection \<open>The error monad, division, square root and rounding\<close>

lemma ebind_Inl [simp]: "ebind (Inl e) f = Inl e" by (simp add: ebind_def)
lemma ebind_Inr [simp]: "ebind (Inr v) f = f v" by (simp add: ebind_def)
lemma ebind_eq_Inr: "ebind m f = Inr y \<longleftrightarrow> (\<exists>v. m = Inr v \<and> f v = Inr y)"
  by (cases m) simp_all

lemma py_div_eq_Inr: "py_div x y = Inr q \<longleftrightarrow> y \<noteq> 0 \<and> q = x / y"
  by (auto simp: py_div_def)
lemma py_div_nz: "y \<noteq> 0 \<Longrightarrow> py_div x y = Inr (x / y)" by (simp add: py_div_def)

lemma round_half_even_mono: assumes "x \<le> y" shows "round_half_even x \<le> round_half_even y"
proof (cases "\<lfloor>x\<rfloor> = \<lfloor>y\<rfloor>")
  case True
  with assms show ?thesis unfolding round_half_even_def Let_def by auto
next
  case False
  with assms have lt: "\<lfloor>x\<rfloor> < \<lfloor>y\<rfloor>" by (simp add: floor_mono order.not_eq_order_implies_strict)
  have a: "round_half_even x \<le> \<lfloor>x\<rfloor> + 1" unfolding round_half_even_def Let_def by auto
  have b: "\<lfloor>y\<rfloor> \<le> round_half_even y" unfolding round_half_even_def Let_def by auto
  from a b lt show ?thesis by linarith
qed

lemma round_half_even_of_int [simp]: "round_half_even (of_int k) = k"
  unfolding round_half_even_def Let_def by simp

lemma py_round_mono: "x \<le> y \<Longrightarrow> py_round x n \<le> py_round y n"
  unfolding py_round_def by (simp add: round_half_even_mono divide_right_mono mult_right_mono)

lemma py_round_max: "py_round (max x y) n = max (py_round x n) (py_round y n)"
proof (cases "x \<le> y")
  case True
  then show ?thesis using py_round_mono[of x y n] by (simp add: max_def)
next
  case False
  then have "y \<le> x" by simp
  then show ?thesis using py_round_mono[of y x n] by (simp add: max_def)
qed

lemma py_round_exact: "x * 10 ^ n = of_int k \<Longrightarrow> py_round x n = x"
proof -
  assume h: "x * 10 ^ n = of_int k"
  have "py_round x n = of_int k / 10 ^ n" unfolding py_round_def h by simp
  also have "\<dots> = x" using h[symmetric] by simp
  finally show ?thesis .
qed

subsection \<open>The candidate loop and the selection\<close>

lemma spacing_practical_range: "75 \<le> spacing_practical s \<and> spacing_practical s \<le> 300"
  by (simp add: spacing_practical_def)

lemma spacing_practical_dvd: "25 dvd spacing_practical s"
  by (simp add: spacing_practical_def max_def min_def)

lemma spacing_practical_le:
  assumes "spacing_practical s \<noteq> 75"
  shows "of_int (spacing_practical s) \<le> s"
proof -
  have "of_int (\<lfloor>s / 25\<rfloor> * 25) \<le> s"
    using of_int_floor_le[of "s / 25"] by simp
  moreover have "spacing_practical s \<le> \<lfloor>s / 25\<rfloor> * 25"
    using assms by (auto simp: spacing_practical_def max_def min_def split: if_splits)
  ultimately show ?thesis by linarith
qed

lemma options_loop_pos:
  "0 < As_provided \<Longrightarrow>
   options_loop As_provided As_required bars acc
     = Inr (acc @ map (evaluate_bar As_provided As_required) bars)"
proof (induction bars arbitrary: acc)
  case Nil
  then show ?case by simp
next
  case (Cons item bars)
  obtain bar_size bar_area where item: "item = (bar_size, bar_area)" by (cases item)
  have nz: "(of_int (spacing_practical (bar_area * 1000 / As_provided)) :: real) \<noteq> 0"
    using spacing_practical_range[of "bar_area * 1000 / As_provided"] by auto
  show ?case
    using Cons.prems nz by (simp add: item py_div_def Cons.IH evaluate_bar_def Let_def)
qed

lemma options_loop_nonpos:
  "\<not> 0 < As_provided \<Longrightarrow> options_loop As_provided As_required bars acc = Inr acc"
  by (induction bars arbitrary: acc) auto

lemma foldl_min_first:
  "\<exists>pre post. x # rest = pre @ foldl (\<lambda>best y. if key y < key best then y else best) x rest # post
      \<and> (\<forall>a\<in>set pre. key (foldl (\<lambda>best y. if key y < key best then y else best) x rest) < key a)
      \<and> (\<forall>a\<in>set post. key (foldl (\<lambda>best y. if key y < key best then y else best) x rest) \<le> (key a :: real))"
proof (induction rest rule: rev_induct)
  case Nil
  show ?case by (rule exI[of _ "[]"], rule exI[of _ "[]"]) simp
next
  case (snoc y rest)
  let ?f = "\<lambda>best y. if key y < key best then y else best"
  let ?m = "foldl ?f x rest"
  from snoc obtain pre post where d: "x # rest = pre @ ?m # post"
    and p1: "\<forall>a\<in>set pre. key ?m < key a" and p2: "\<forall>a\<in>set post. key ?m \<le> key a" by blast
  show ?case
  proof (cases "key y < key ?m")
    case True
    have "x # rest @ [y] = (x # rest) @ y # []" by simp
    moreover have "\<forall>a\<in>set (x # rest). key y < key a"
      using True p1 p2 unfolding d by auto
    ultimately show ?thesis using True
      by (intro exI[of _ "x # rest"] exI[of _ "[]"]) simp
  next
    case False
    have "x # rest @ [y] = pre @ ?m # (post @ [y])" using d by simp
    then show ?thesis using False p1 p2
      by (intro exI[of _ pre] exI[of _ "post @ [y]"]) auto
  qed
qed

lemma foldl_max_first:
  "\<exists>pre post. x # rest = pre @ foldl (\<lambda>best y. if key best < key y then y else best) x rest # post
      \<and> (\<forall>a\<in>set pre. key a < key (foldl (\<lambda>best y. if key best < key y then y else best) x rest))
      \<and> (\<forall>a\<in>set post. (key a :: real) \<le> key (foldl (\<lambda>best y. if key best < key y then y else best) x rest))"
proof (induction rest rule: rev_induct)
  case Nil
  show ?case by (rule exI[of _ "[]"], rule exI[of _ "[]"]) simp
next
  case (snoc y rest)
  let ?f = "\<lambda>best y. if key best < key y then y else best"
  let ?m = "foldl ?f x rest"
  from snoc obtain pre post where d: "x # rest = pre @ ?m # post"
    and p1: "\<forall>a\<in>set pre. key a < key ?m" and p2: "\<forall>a\<in>set post. key a \<le> key ?m" by blast
  show ?case
  proof (cases "key ?m < key y")
    case True
    have "x # rest @ [y] = (x # rest) @ y # []" by simp
    moreover have "\<forall>a\<in>set (x # rest). key a < key y"
      using True p1 p2 unfolding d by auto
    ultimately show ?thesis using True
      by (intro exI[of _ "x # rest"] exI[of _ "[]"]) simp
  next
    case False
    have "x # rest @ [y] = pre @ ?m # (post @ [y])" using d by simp
    then show ?thesis using False p1 p2
      by (intro exI[of _ pre] exI[of _ "post @ [y]"]) auto
  qed
qed

lemma py_min_by_first:
  assumes "xs \<noteq> []"
  shows "\<exists>pre m post. xs = pre @ m # post \<and> py_min_by key xs = Inr m
           \<and> (\<forall>a\<in>set pre. key m < key a) \<and> (\<forall>a\<in>set post. key m \<le> key a)"
proof -
  from assms obtain x rest where xs: "xs = x # rest" by (cases xs) auto
  show ?thesis using foldl_min_first[of x rest key] unfolding xs py_min_by_def by auto
qed

lemma py_max_by_first:
  assumes "xs \<noteq> []"
  shows "\<exists>pre m post. xs = pre @ m # post \<and> py_max_by key xs = Inr m
           \<and> (\<forall>a\<in>set pre. key a < key m) \<and> (\<forall>a\<in>set post. key a \<le> key m)"
proof -
  from assms obtain x rest where xs: "xs = x # rest" by (cases xs) auto
  show ?thesis using foldl_max_first[of x rest key] unfolding xs py_max_by_def by auto
qed

lemma filter_split_lift:
  "filter P xs = pre' @ m # post' \<Longrightarrow>
   \<exists>pre post. xs = pre @ m # post \<and> filter P pre = pre' \<and> filter P post = post' \<and> P m"
proof (induction xs arbitrary: pre')
  case Nil
  then show ?case by simp
next
  case (Cons a xs)
  show ?case
  proof (cases "P a")
    case False
    with Cons.prems have "filter P xs = pre' @ m # post'" by simp
    from Cons.IH[OF this] obtain pre post where
      "xs = pre @ m # post" "filter P pre = pre'" "filter P post = post'" "P m" by blast
    then show ?thesis using False by (intro exI[of _ "a # pre"] exI[of _ post]) simp
  next
    case True
    show ?thesis
    proof (cases pre')
      case Nil
      with Cons.prems True have "a = m" "filter P xs = post'" by simp_all
      then show ?thesis using True Nil by (intro exI[of _ "[]"] exI[of _ xs]) simp
    next
      case (Cons p ps)
      with Cons.prems True have pa: "p = a" and "filter P xs = ps @ m # post'" by simp_all
      from Cons.IH[OF this(2)] obtain pre post where
        "xs = pre @ m # post" "filter P pre = ps" "filter P post = post'" "P m" by blast
      then show ?thesis using True Cons pa by (intro exI[of _ "a # pre"] exI[of _ post]) simp
    qed
  qed
qed

lemma select_option_adequate:
  assumes "\<exists>c\<in>set opts. o_adequate c"
  shows "\<exists>pre s post. opts = pre @ s # post \<and> select_option opts = Inr s \<and> o_adequate s
           \<and> (\<forall>c\<in>set pre. o_adequate c \<longrightarrow> o_bar_area s < o_bar_area c)
           \<and> (\<forall>c\<in>set post. o_adequate c \<longrightarrow> o_bar_area s \<le> o_bar_area c)"
proof -
  from assms have ne: "filter o_adequate opts \<noteq> []" by (simp add: filter_empty_conv)
  from py_min_by_first[OF ne, of o_bar_area] obtain pre' m post' where
    f: "filter o_adequate opts = pre' @ m # post'" and r: "py_min_by o_bar_area (filter o_adequate opts) = Inr m"
    and p1: "\<forall>a\<in>set pre'. o_bar_area m < o_bar_area a" and p2: "\<forall>a\<in>set post'. o_bar_area m \<le> o_bar_area a"
    by blast
  from filter_split_lift[OF f] obtain pre post where
    d: "opts = pre @ m # post" "filter o_adequate pre = pre'" "filter o_adequate post = post'" "o_adequate m"
    by blast
  have "select_option opts = Inr m" using ne r by (simp add: select_option_def Let_def)
  moreover have "\<forall>c\<in>set pre. o_adequate c \<longrightarrow> o_bar_area m < o_bar_area c"
    using p1 d(2) by auto
  moreover have "\<forall>c\<in>set post. o_adequate c \<longrightarrow> o_bar_area m \<le> o_bar_area c"
    using p2 d(3) by auto
  ultimately show ?thesis using d(1,4) by blast
qed

lemma select_option_none_adequate:
  assumes "opts \<noteq> []" "\<forall>c\<in>set opts. \<not> o_adequate c"
  shows "\<exists>pre s post. opts = pre @ s # post \<and> select_option opts = Inr s
           \<and> (\<forall>c\<in>set pre. o_As_actual c < o_As_actual s)
           \<and> (\<forall>c\<in>set post. o_As_actual c \<le> o_As_actual s)"
proof -
  from assms(2) have e: "filter o_adequate opts = []" by (simp add: filter_empty_conv)
  have "select_option opts = py_max_by o_As_actual opts" using e by (simp add: select_option_def)
  then show ?thesis using py_max_by_first[OF assms(1), of o_As_actual] by auto
qed

lemma select_option_empty: "select_option [] = Inl ValueError"
  by (simp add: select_option_def py_max_by_def)

subsection \<open>The run of the function\<close>

lemma ebind_eq_Inl: "ebind m f = Inl e \<longleftrightarrow> m = Inl e \<or> (\<exists>v. m = Inr v \<and> f v = Inl e)"
  by (cases m) simp_all

lemma concrete_fck:
  "CONCRETE_GRADES g = Some cp \<Longrightarrow> fck cp \<in> {20, 25, 30, 35, 40}"
  by (auto simp: CONCRETE_GRADES_def split: if_splits)

lemma steel_fy: "STEEL_GRADES g = Some sp \<Longrightarrow> fy sp \<in> {460, 500}"
  by (auto simp: STEEL_GRADES_def split: if_splits)

lemma concrete_fck_pos: "CONCRETE_GRADES g = Some cp \<Longrightarrow> 0 < fck cp"
  using concrete_fck[of g cp] by auto

lemma steel_fy_pos: "STEEL_GRADES g = Some sp \<Longrightarrow> 0 < fy sp"
  using steel_fy[of g sp] by auto

lemma lookup_Some: "table k = Some v \<Longrightarrow> lookup table k = Inr v" by (simp add: lookup_def)

lemma lookup_eq_Inr: "lookup table k = Inr v \<longleftrightarrow> table k = Some v"
  by (simp add: lookup_def split: option.splits)

lemma lever_arm_Inr:
  "lever_arm K d = Inr (if K \<le> K_prime then min (d * (0.5 + sqrt (0.25 - K / 1.134))) (0.95 * d) else 0.95 * d)"
proof (cases "K \<le> K_prime")
  case True
  then have "0 \<le> 0.25 - K / 1.134" by (simp add: K_prime_def)
  then show ?thesis using True by (simp add: lever_arm_def py_sqrt_def)
next
  case False
  then show ?thesis by (simp add: lever_arm_def)
qed

lemma slab_locals_Inr:
  assumes "slab_locals span_m dead_load live_load concrete_grade steel_grade cover = Inr L"
  shows "\<exists>cp sp. CONCRETE_GRADES concrete_grade = Some cp \<and> STEEL_GRADES steel_grade = Some sp
     \<and> l_fck L = fck cp \<and> l_fy L = fy sp"
    and "l_ultimate_load L = 1.4 * dead_load + 1.6 * live_load"
    and "l_moment L = l_ultimate_load L * span_m ^ 2 / 8"
    and "l_estimated_depth L = span_m * 1000 / 25"
    and "l_slab_depth L = \<lceil>l_estimated_depth L / 25\<rceil> * 25"
    and "l_effective_depth L = of_int (l_slab_depth L) - cover - 6"
    and "l_effective_depth L \<noteq> 0"
    and "l_K L = l_moment L * 1000000 / (1000 * l_effective_depth L ^ 2 * of_int (l_fck L))"
    and "lever_arm (l_K L) (l_effective_depth L) = Inr (l_z L)"
    and "l_As_required L = l_moment L * 1000000 / (0.87 * of_int (l_fy L) * l_z L)"
    and "l_As_min L = 0.0013 * 1000 * of_int (l_slab_depth L)"
    and "l_As_provided L = max (l_As_required L) (l_As_min L)"
    and "options_loop (l_As_provided L) (l_As_required L) BAR_AREAS [] = Inr (l_reinforcement_options L)"
    and "select_option (l_reinforcement_options L) = Inr (l_selected L)"
  using assms unfolding slab_locals_def Let_def ebind_eq_Inr
  by (auto simp: py_div_eq_Inr lookup_eq_Inr)



lemma slab_locals_forward:
  assumes cg: "CONCRETE_GRADES concrete_grade = Some cp" and sg: "STEEL_GRADES steel_grade = Some sp"
    and ul: "ul = (1.4 * dead_load) + (1.6 * live_load)"
    and M: "M = (ul * span_m ^ 2) / 8"
    and sd: "sd = \<lceil>(span_m * 1000) / 25 / 25\<rceil> * 25"
    and d: "d = of_int sd - cover - (12 / 2)"
    and K: "py_div (M * 1000000) (1000 * d ^ 2 * of_int (fck cp)) = Inr K"
    and z: "lever_arm K d = Inr z"
    and Ar: "py_div (M * 1000000) (0.87 * of_int (fy sp) * z) = Inr Ar"
    and Amin: "Amin = 0.0013 * 1000 * of_int sd"
    and Ap: "Ap = max Ar Amin"
    and opts: "options_loop Ap Ar BAR_AREAS [] = Inr opts"
    and sel: "select_option opts = Inr sel"
    and mf: "modification_factor Ap Ar (of_int (fy sp)) M d = Inr mf"
    and asd: "py_div (span_m * 1000) (of_int sd) = Inr asd"
  shows "slab_locals span_m dead_load live_load concrete_grade steel_grade cover =
     ebind (concrete_shear_strength Ap d (of_int (fck cp))) (\<lambda>vc.
     ebind (py_div ((ul * span_m) / 2 * 1000) (1000 * d)) (\<lambda>shear_stress.
     Inr \<lparr>l_fck = fck cp, l_fy = fy sp,
          l_ultimate_load = ul, l_moment = M,
          l_estimated_depth = (span_m * 1000) / 25, l_slab_depth = sd,
          l_effective_depth = d,
          l_K = K, l_z = z,
          l_As_required = Ar, l_As_min = Amin, l_As_provided = Ap,
          l_reinforcement_options = opts, l_selected = sel,
          l_mf = mf, l_allowable_span_depth = 26 * mf,
          l_actual_span_depth = asd,
          l_V = (ul * span_m) / 2, l_vc = vc, l_shear_stress = shear_stress\<rparr>))"
proof -
  note steps = K z Ar opts sel mf asd
  have lc: "lookup CONCRETE_GRADES concrete_grade = Inr cp" using cg by (simp add: lookup_def)
  have ls: "lookup STEEL_GRADES steel_grade = Inr sp" using sg by (simp add: lookup_def)
  show ?thesis
    unfolding slab_locals_def Let_def lc ls ebind_Inr
    using steps unfolding Ap Amin d sd M ul
    by (simp only: ebind_Inr)
qed


lemma select_option_nonempty:
  "opts \<noteq> [] \<Longrightarrow> \<exists>s. select_option opts = Inr s \<and> s \<in> set opts"
proof (cases "\<exists>c\<in>set opts. o_adequate c")
  case True
  from select_option_adequate[OF True] show ?thesis by auto
next
  case False
  assume "opts \<noteq> []"
  from select_option_none_adequate[OF this] False show ?thesis by auto
qed

lemma modification_factor_ok:
  assumes "0 \<le> M" "d \<noteq> 0"
  shows "\<exists>mf. modification_factor Ap Ar fy_v M d = Inr mf"
proof (cases "Ap > 0 \<and> Ar > 0")
  case False
  then show ?thesis by (auto simp: modification_factor_def)
next
  case True
  have "0 \<le> M * 1000000 / (1000 * d ^ 2)" using assms by simp
  then have "0 < 120 * (0.9 + M * 1000000 / (1000 * d ^ 2))" by simp
  then have "120 * (0.9 + M * 1000000 / (1000 * d ^ 2)) \<noteq> 0" by simp
  then show ?thesis using True assms(2) by (simp add: modification_factor_def py_div_def)
qed


lemma concrete_shear_strength_ok:
  assumes "0 < Ap" "0 < d" "0 \<le> f"
  shows "\<exists>vc. concrete_shear_strength Ap d f = Inr vc"
proof -
  show ?thesis using assms
    by (simp add: concrete_shear_strength_def py_div_def py_sqrt_def divide_less_0_iff)
qed

lemma concrete_shear_strength_negative:
  assumes "0 < Ap" "d < 0" "0 \<le> f"
  shows "concrete_shear_strength Ap d f = Inl TypeError"
proof -
  show ?thesis using assms
    by (simp add: concrete_shear_strength_def py_div_def py_sqrt_def divide_less_0_iff)
qed

lemma lever_arm_sign:
  assumes "lever_arm K d = Inr z"
  shows "(0 < d \<longrightarrow> 0 < z) \<and> (d < 0 \<longrightarrow> z < 0)"
proof (cases "K \<le> K_prime")
  case False
  with assms show ?thesis by (auto simp: lever_arm_def)
next
  case True
  have nn: "0 \<le> 0.25 - K / 1.134" using True by (simp add: K_prime_def)
  then have s: "0 \<le> sqrt (0.25 - K / 1.134)" by simp
  from assms True nn have z: "z = min (d * (0.5 + sqrt (0.25 - K / 1.134))) (0.95 * d)"
    by (simp add: lever_arm_def py_sqrt_def)
  have p: "0 < 0.5 + sqrt (0.25 - K / 1.134)" using s by (intro add_pos_nonneg) auto
  have A: "0 < z" if "0 < d"
  proof -
    have "0 < d * (0.5 + sqrt (0.25 - K / 1.134))" using that p by (rule mult_pos_pos)
    moreover have "0 < 0.95 * d" using that by simp
    ultimately show ?thesis unfolding z by simp
  qed
  have B: "z < 0" if "d < 0"
  proof -
    have "z \<le> 0.95 * d" unfolding z by (rule min.cobounded2)
    moreover have "0.95 * d < 0" using that by simp
    ultimately show ?thesis by linarith
  qed
  from A B show ?thesis by blast
qed

lemma slab_depth_ge_25:
  assumes "0 < span_m"
  shows "25 \<le> \<lceil>(span_m * 1000) / 25 / 25\<rceil> * 25"
proof -
  have "0 < (span_m * 1000) / 25 / 25" using assms by simp
  then have "0 < \<lceil>(span_m * 1000) / 25 / 25\<rceil>" by (simp only: zero_less_ceiling)
  then show ?thesis by linarith
qed


text \<open>What the run looks like once the effective depth is known not to be zero.\<close>

lemma slab_locals_run:
  assumes cg: "CONCRETE_GRADES concrete_grade = Some cp" and sg: "STEEL_GRADES steel_grade = Some sp"
    and span: "0 < span_m" and dl: "0 \<le> dead_load" and ll: "0 \<le> live_load"
    and d: "d = of_int (\<lceil>(span_m * 1000) / 25 / 25\<rceil> * 25) - cover - (12 / 2)"
    and dnz: "d \<noteq> 0"
  shows "\<exists>Ap F. 0 < Ap \<and>
     slab_locals span_m dead_load live_load concrete_grade steel_grade cover =
     ebind (concrete_shear_strength Ap d (of_int (fck cp))) (\<lambda>vc.
     ebind (py_div ((((1.4 * dead_load) + (1.6 * live_load)) * span_m) / 2 * 1000) (1000 * d)) (\<lambda>shear_stress.
     Inr (F vc shear_stress)))"
proof -
  define ul where "ul = (1.4 * dead_load) + (1.6 * live_load)"
  define M where "M = (ul * span_m ^ 2) / 8"
  define sd where "sd = \<lceil>(span_m * 1000) / 25 / 25\<rceil> * 25"
  have d': "d = of_int sd - cover - (12 / 2)" using d by (simp only: sd_def)
  have sd25: "25 \<le> sd" unfolding sd_def by (rule slab_depth_ge_25[OF span])
  have fckp: "0 < fck cp" by (rule concrete_fck_pos[OF cg])
  have fyp: "0 < fy sp" by (rule steel_fy_pos[OF sg])
  have M0: "0 \<le> M" unfolding M_def ul_def using dl ll by simp
  define K where "K = (M * 1000000) / (1000 * d ^ 2 * of_int (fck cp))"
  have Kstep: "py_div (M * 1000000) (1000 * d ^ 2 * of_int (fck cp)) = Inr K"
    unfolding K_def using dnz fckp by (simp add: py_div_def)
  obtain z where zstep: "lever_arm K d = Inr z" using lever_arm_Inr[of K d] by blast
  have znz: "z \<noteq> 0" using lever_arm_sign[OF zstep] dnz by (cases "0 < d") auto
  define Ar where "Ar = (M * 1000000) / (0.87 * of_int (fy sp) * z)"
  have Arstep: "py_div (M * 1000000) (0.87 * of_int (fy sp) * z) = Inr Ar"
    unfolding Ar_def using znz fyp by (simp add: py_div_def)
  define Amin where "Amin = 0.0013 * 1000 * real_of_int sd"
  define Ap where "Ap = max Ar Amin"
  have "0 < Amin" unfolding Amin_def using sd25 by simp
  then have App: "0 < Ap" unfolding Ap_def by simp
  define opts where "opts = map (evaluate_bar Ap Ar) BAR_AREAS"
  have optstep: "options_loop Ap Ar BAR_AREAS [] = Inr opts"
    unfolding opts_def using options_loop_pos[OF App, of Ar BAR_AREAS "[]"] by simp
  have "opts \<noteq> []" unfolding opts_def by (simp add: BAR_AREAS_def)
  from select_option_nonempty[OF this] obtain sel where selstep: "select_option opts = Inr sel"
    by blast
  from modification_factor_ok[OF M0 dnz] obtain mf where
    mfstep: "modification_factor Ap Ar (of_int (fy sp)) M d = Inr mf" by blast
  define asd where "asd = (span_m * 1000) / of_int sd"
  have asdstep: "py_div (span_m * 1000) (of_int sd) = Inr asd"
    unfolding asd_def using sd25 by (simp add: py_div_def)
  have "slab_locals span_m dead_load live_load concrete_grade steel_grade cover =
     ebind (concrete_shear_strength Ap d (of_int (fck cp))) (\<lambda>vc.
     ebind (py_div ((ul * span_m) / 2 * 1000) (1000 * d)) (\<lambda>shear_stress.
     Inr \<lparr>l_fck = fck cp, l_fy = fy sp,
          l_ultimate_load = ul, l_moment = M,
          l_estimated_depth = (span_m * 1000) / 25, l_slab_depth = sd,
          l_effective_depth = d,
          l_K = K, l_z = z,
          l_As_required = Ar, l_As_min = Amin, l_As_provided = Ap,
          l_reinforcement_options = opts, l_selected = sel,
          l_mf = mf, l_allowable_span_depth = 26 * mf,
          l_actual_span_depth = asd,
          l_V = (ul * span_m) / 2, l_vc = vc, l_shear_stress = shear_stress\<rparr>))"
    by (rule slab_locals_forward[OF cg sg ul_def M_def sd_def d' Kstep zstep Arstep Amin_def Ap_def
          optstep selstep mfstep asdstep])
  then show ?thesis using App unfolding ul_def
    by (intro exI[of _ Ap] exI[of _ "\<lambda>vc shear_stress. \<lparr>l_fck = fck cp, l_fy = fy sp,
          l_ultimate_load = (1.4 * dead_load) + (1.6 * live_load), l_moment = M,
          l_estimated_depth = (span_m * 1000) / 25, l_slab_depth = sd,
          l_effective_depth = d,
          l_K = K, l_z = z,
          l_As_required = Ar, l_As_min = Amin, l_As_provided = Ap,
          l_reinforcement_options = opts, l_selected = sel,
          l_mf = mf, l_allowable_span_depth = 26 * mf,
          l_actual_span_depth = asd,
          l_V = (((1.4 * dead_load) + (1.6 * live_load)) * span_m) / 2, l_vc = vc,
          l_shear_stress = shear_stress\<rparr>"]) simp
qed

lemma slab_locals_success:
  assumes cg: "CONCRETE_GRADES concrete_grade = Some cp" and sg: "STEEL_GRADES steel_grade = Some sp"
    and span: "0 < span_m" and dl: "0 \<le> dead_load" and ll: "0 \<le> live_load"
    and dpos: "0 < of_int (\<lceil>(span_m * 1000) / 25 / 25\<rceil> * 25) - cover - (12 / 2 :: real)"
  shows "\<exists>L. slab_locals span_m dead_load live_load concrete_grade steel_grade cover = Inr L"
proof -
  define d where "d = of_int (\<lceil>(span_m * 1000) / 25 / 25\<rceil> * 25) - cover - (12 / 2 :: real)"
  have dp: "0 < d" using dpos by (simp only: d_def)
  then have dnz: "d \<noteq> 0" by simp
  from slab_locals_run[OF cg sg span dl ll d_def dnz] obtain Ap F where
    App: "0 < Ap" and run: "slab_locals span_m dead_load live_load concrete_grade steel_grade cover =
     ebind (concrete_shear_strength Ap d (of_int (fck cp))) (\<lambda>vc.
     ebind (py_div ((((1.4 * dead_load) + (1.6 * live_load)) * span_m) / 2 * 1000) (1000 * d)) (\<lambda>shear_stress.
     Inr (F vc shear_stress)))"
    by blast
  have "0 \<le> real_of_int (fck cp)" using concrete_fck_pos[OF cg] by simp
  from concrete_shear_strength_ok[OF App dp this] obtain vc where
    vc: "concrete_shear_strength Ap d (of_int (fck cp)) = Inr vc" by blast
  have "1000 * d \<noteq> 0" using dnz by simp
  then show ?thesis unfolding run vc by (simp add: py_div_def)
qed

lemma slab_locals_negative_depth:
  assumes cg: "CONCRETE_GRADES concrete_grade = Some cp" and sg: "STEEL_GRADES steel_grade = Some sp"
    and span: "0 < span_m" and dl: "0 \<le> dead_load" and ll: "0 \<le> live_load"
    and dneg: "of_int (\<lceil>(span_m * 1000) / 25 / 25\<rceil> * 25) - cover - (12 / 2 :: real) < 0"
  shows "slab_locals span_m dead_load live_load concrete_grade steel_grade cover = Inl TypeError"
proof -
  define d where "d = of_int (\<lceil>(span_m * 1000) / 25 / 25\<rceil> * 25) - cover - (12 / 2 :: real)"
  have dn: "d < 0" using dneg by (simp only: d_def)
  then have dnz: "d \<noteq> 0" by simp
  from slab_locals_run[OF cg sg span dl ll d_def dnz] obtain Ap F where
    App: "0 < Ap" and run: "slab_locals span_m dead_load live_load concrete_grade steel_grade cover =
     ebind (concrete_shear_strength Ap d (of_int (fck cp))) (\<lambda>vc.
     ebind (py_div ((((1.4 * dead_load) + (1.6 * live_load)) * span_m) / 2 * 1000) (1000 * d)) (\<lambda>shear_stress.
     Inr (F vc shear_stress)))"
    by blast
  have "0 \<le> real_of_int (fck cp)" using concrete_fck_pos[OF cg] by simp
  from concrete_shear_strength_negative[OF App dn this] show ?thesis unfolding run by simp
qed

lemma slab_locals_zero_depth:
  assumes cg: "CONCRETE_GRADES concrete_grade = Some cp" and sg: "STEEL_GRADES steel_grade = Some sp"
    and dz: "of_int (\<lceil>(span_m * 1000) / 25 / 25\<rceil> * 25) - cover - (12 / 2 :: real) = 0"
  shows "slab_locals span_m dead_load live_load concrete_grade steel_grade cover = Inl ZeroDivisionError"
proof -
  have lc: "lookup CONCRETE_GRADES concrete_grade = Inr cp" using cg by (simp add: lookup_def)
  have ls: "lookup STEEL_GRADES steel_grade = Inr sp" using sg by (simp add: lookup_def)
  have z: "py_div x (1000 * (0::real) ^ 2 * y) = Inl ZeroDivisionError" for x y
    by (simp add: py_div_def)
  show ?thesis
    unfolding slab_locals_def Let_def lc ls ebind_Inr dz z ebind_Inl ..
qed

lemma calculate_slab_design_Inr:
  "calculate_slab_design span_m dead_load live_load concrete_grade steel_grade cover = Inr r \<longleftrightarrow>
   (\<exists>L. slab_locals span_m dead_load live_load concrete_grade steel_grade cover = Inr L
      \<and> r = results_of span_m dead_load live_load concrete_grade steel_grade cover L)"
  unfolding calculate_slab_design_def ebind_eq_Inr by auto

lemma calculate_slab_design_Inl:
  "slab_locals span_m dead_load live_load concrete_grade steel_grade cover = Inl e \<Longrightarrow>
   calculate_slab_design span_m dead_load live_load concrete_grade steel_grade cover = Inl e"
  unfolding calculate_slab_design_def by simp

lemma slab_locals_unknown_grade:
  assumes "CONCRETE_GRADES concrete_grade = None \<or> STEEL_GRADES steel_grade = None"
  shows "slab_locals span_m dead_load live_load concrete_grade steel_grade cover =
     Inl (KeyError (if CONCRETE_GRADES concrete_grade = None then concrete_grade else steel_grade))"
proof (cases "CONCRETE_GRADES concrete_grade")
  case None
  then show ?thesis unfolding slab_locals_def by (simp add: lookup_def)
next
  case (Some cp)
  with assms have "STEEL_GRADES steel_grade = None" by simp
  then show ?thesis unfolding slab_locals_def using Some by (simp add: lookup_def)
qed

lemma C99_unknown: "CONCRETE_GRADES ''C99'' = None"
  by (simp add: CONCRETE_GRADES_def)
lemma C25_known: "CONCRETE_GRADES ''C25'' = Some \<lparr>fck = 25, fctm = 2.6\<rparr>"
  by (simp add: CONCRETE_GRADES_def)
lemma S460_known: "STEEL_GRADES ''460'' = Some \<lparr>fy = 460, Es = 200000\<rparr>"
  by (simp add: STEEL_GRADES_def)

lemma degenerate_depth:
  assumes "CONCRETE_GRADES concrete_grade = Some cp" and "STEEL_GRADES steel_grade = Some sp"
    and "0 < span_m" and "0 \<le> dead_load" and "0 \<le> live_load"
    and "of_int (\<lceil>(span_m * 1000) / 25 / 25\<rceil> * 25) - cover - (12 / 2 :: real) \<le> 0"
  shows "calculate_slab_design span_m dead_load live_load concrete_grade steel_grade cover =
     Inl (if of_int (\<lceil>(span_m * 1000) / 25 / 25\<rceil> * 25) - cover - (12 / 2 :: real) = 0
          then ZeroDivisionError else TypeError)"
proof (cases "of_int (\<lceil>(span_m * 1000) / 25 / 25\<rceil> * 25) - cover - (12 / 2 :: real) = 0")
  case True
  have "calculate_slab_design span_m dead_load live_load concrete_grade steel_grade cover =
      Inl ZeroDivisionError"
    by (rule calculate_slab_design_Inl[OF slab_locals_zero_depth[OF assms(1,2) True]])
  then show ?thesis using True by simp
next
  case False
  with assms(6) have "of_int (\<lceil>(span_m * 1000) / 25 / 25\<rceil> * 25) - cover - (12 / 2 :: real) < 0"
    by linarith
  then have "calculate_slab_design span_m dead_load live_load concrete_grade steel_grade cover =
      Inl TypeError"
    by (intro calculate_slab_design_Inl slab_locals_negative_depth[OF assms(1-5)])
  then show ?thesis using False by simp
qed

lemma lever_arm_capped:
  assumes "K \<le> 0.053" "0 \<le> d"
  shows "lever_arm K d = Inr (0.95 * d)"
proof -
  have K: "K \<le> K_prime" using assms(1) by (simp add: K_prime_def)
  have "(0.45 :: real)\<^sup>2 \<le> 0.25 - K / 1.134" using assms(1) by (simp add: power2_eq_square)
  then have "0.45 \<le> sqrt (0.25 - K / 1.134)" by (rule real_le_rsqrt)
  then have "0.95 \<le> 0.5 + sqrt (0.25 - K / 1.134)" by simp
  then have "d * 0.95 \<le> d * (0.5 + sqrt (0.25 - K / 1.134))"
    using assms(2) by (rule mult_left_mono)
  then have "0.95 * d \<le> d * (0.5 + sqrt (0.25 - K / 1.134))"
    by (simp only: mult.commute[of d "0.95"])
  then have "min (d * (0.5 + sqrt (0.25 - K / 1.134))) (0.95 * d) = 0.95 * d"
    by (rule min_absorb2)
  then show ?thesis using K by (simp only: lever_arm_Inr if_True)
qed

lemma scenario_A_locals:
  "\<exists>L. slab_locals 4 3 2 ''C25'' ''460'' 25 = Inr L
     \<and> l_ultimate_load L = 7.4 \<and> l_moment L = 14.8 \<and> l_estimated_depth L = 160
     \<and> l_slab_depth L = 175 \<and> l_effective_depth L = 144 \<and> l_K L = 37 / 1296
     \<and> l_z L = 136.8"
proof -
  have "\<exists>L. slab_locals 4 3 2 ''C25'' ''460'' 25 = Inr L"
    by (rule slab_locals_success[OF C25_known S460_known]) simp_all
  then obtain L where L: "slab_locals 4 3 2 ''C25'' ''460'' 25 = Inr L" by blast
  note f = slab_locals_Inr[OF L]
  have fck: "l_fck L = 25" using f(1) C25_known by auto
  have ul: "l_ultimate_load L = 7.4" using f(2) by simp
  have M: "l_moment L = 14.8" using f(3) unfolding ul by simp
  have e: "l_estimated_depth L = 160" using f(4) by simp
  have sd: "l_slab_depth L = 175" using f(5) unfolding e by simp
  have d: "l_effective_depth L = 144" using f(6) unfolding sd by simp
  have K: "l_K L = 37 / 1296" using f(8) unfolding M d fck by simp
  have "lever_arm (37 / 1296) 144 = Inr (0.95 * 144)" by (rule lever_arm_capped) simp_all
  with f(9) have z: "l_z L = 136.8" unfolding K d by simp
  show ?thesis using L ul M e sd d K z by blast
qed


lemma scenario_A_results:
  "\<exists>r. calculate_slab_design 4 3 2 ''C25'' ''460'' 25 = Inr r
     \<and> r_ultimate_load r = 7.4 \<and> r_moment r = 14.8 \<and> r_slab_depth r = 175
     \<and> r_effective_depth r = 144 \<and> r_K r = 0.0285
     \<and> \<not> r_compression_reinforcement_needed r \<and> r_lever_arm r = 136.8"
proof -
  from scenario_A_locals obtain L where L: "slab_locals 4 3 2 ''C25'' ''460'' 25 = Inr L"
    and v: "l_ultimate_load L = 7.4" "l_moment L = 14.8" "l_slab_depth L = 175"
      "l_effective_depth L = 144" "l_K L = 37 / 1296" "l_z L = 136.8" by blast
  have "calculate_slab_design 4 3 2 ''C25'' ''460'' 25 = Inr (results_of 4 3 2 ''C25'' ''460'' 25 L)"
    unfolding calculate_slab_design_def L by simp
  then show ?thesis
    by (intro exI[of _ "results_of 4 3 2 ''C25'' ''460'' 25 L"])
       (simp add: results_of_def v py_round_def round_half_even_def Let_def py_int_def K_prime_def)
qed

subsection \<open>Facts about every run that returns\<close>

lemma slab_depth_ceiling:
  assumes "slab_locals span_m dead_load live_load concrete_grade steel_grade cover = Inr L"
    and "0 < span_m"
  shows "0 < l_slab_depth L" "25 dvd l_slab_depth L"
    "l_estimated_depth L = span_m * 1000 / 25"
    "l_estimated_depth L \<le> of_int (l_slab_depth L)"
    "of_int (l_slab_depth L) < l_estimated_depth L + 25"
proof -
  note f = slab_locals_Inr[OF assms(1)]
  show e: "l_estimated_depth L = span_m * 1000 / 25" by (rule f(4))
  have sd: "l_slab_depth L = \<lceil>l_estimated_depth L / 25\<rceil> * 25" by (rule f(5))
  have "25 \<le> l_slab_depth L" unfolding sd e using slab_depth_ge_25[OF assms(2)] by simp
  then show "0 < l_slab_depth L" by simp
  show "25 dvd l_slab_depth L" unfolding sd by simp
  define c where "c = \<lceil>l_estimated_depth L / 25\<rceil>"
  have sdc: "l_slab_depth L = c * 25" unfolding c_def by (rule sd)
  have "l_estimated_depth L / 25 \<le> of_int c" unfolding c_def by (rule le_of_int_ceiling)
  then show "l_estimated_depth L \<le> of_int (l_slab_depth L)" unfolding sdc by simp
  have "of_int c - 1 < l_estimated_depth L / 25"
    unfolding c_def using ceiling_correct[of "l_estimated_depth L / 25"] by (rule conjunct1)
  then show "of_int (l_slab_depth L) < l_estimated_depth L + 25" unfolding sdc by simp
qed

lemma min_steel:
  assumes "slab_locals span_m dead_load live_load concrete_grade steel_grade cover = Inr L"
  shows "l_As_min L = 0.0013 * 1000 * of_int (l_slab_depth L)"
    "l_As_provided L = max (l_As_required L) (l_As_min L)"
    "l_As_min L \<le> l_As_provided L"
    "py_round (l_As_min L) 1 = l_As_min L"
    "py_round (l_As_provided L) 1 = max (py_round (l_As_required L) 1) (py_round (l_As_min L) 1)"
proof -
  note f = slab_locals_Inr[OF assms(1)]
  show m: "l_As_min L = 0.0013 * 1000 * of_int (l_slab_depth L)" by (rule f(11))
  show p: "l_As_provided L = max (l_As_required L) (l_As_min L)" by (rule f(12))
  show "l_As_min L \<le> l_As_provided L" unfolding p by simp
  have "l_As_min L * 10 ^ 1 = of_int (325 * \<lceil>l_estimated_depth L / 25\<rceil>)"
    unfolding m f(5) by simp
  then show "py_round (l_As_min L) 1 = l_As_min L" by (rule py_round_exact)
  show "py_round (l_As_provided L) 1 = max (py_round (l_As_required L) 1) (py_round (l_As_min L) 1)"
    unfolding p by (rule py_round_max)
qed

lemma options_of_run:
  assumes "slab_locals span_m dead_load live_load concrete_grade steel_grade cover = Inr L"
  shows "0 < l_As_provided L"
    "l_reinforcement_options L = map (evaluate_bar (l_As_provided L) (l_As_required L)) BAR_AREAS"
proof -
  note f = slab_locals_Inr[OF assms(1)]
  show p: "0 < l_As_provided L"
  proof (rule ccontr)
    assume n: "\<not> 0 < l_As_provided L"
    from f(13) have "l_reinforcement_options L = []"
      unfolding options_loop_nonpos[OF n] by simp
    with f(14) show False by (simp add: select_option_empty)
  qed
  from f(13) show "l_reinforcement_options L = map (evaluate_bar (l_As_provided L) (l_As_required L)) BAR_AREAS"
    unfolding options_loop_pos[OF p] by simp
qed

lemma evaluate_bar_fields:
  "o_bar_size (evaluate_bar Ap Ar item) = fst item"
  "o_bar_area (evaluate_bar Ap Ar item) = snd item"
  "o_spacing (evaluate_bar Ap Ar item) = spacing_practical (snd item * 1000 / Ap)"
  "o_As_actual (evaluate_bar Ap Ar item) = py_round (snd item * 1000 / of_int (spacing_practical (snd item * 1000 / Ap))) 1"
  "o_adequate (evaluate_bar Ap Ar item) = (Ar \<le> snd item * 1000 / of_int (spacing_practical (snd item * 1000 / Ap)))"
  by (simp_all add: evaluate_bar_def Let_def)

lemma candidate_properties:
  assumes "c \<in> set (map (evaluate_bar Ap Ar) BAR_AREAS)"
  shows "(o_bar_size c, o_bar_area c) \<in> set BAR_AREAS
    \<and> o_spacing c = max 75 (min (\<lfloor>(o_bar_area c * 1000 / Ap) / 25\<rfloor> * 25) 300)
    \<and> 25 dvd o_spacing c \<and> 75 \<le> o_spacing c \<and> o_spacing c \<le> 300
    \<and> o_As_actual c = py_round (o_bar_area c * 1000 / of_int (o_spacing c)) 1
    \<and> o_adequate c = (Ar \<le> o_bar_area c * 1000 / of_int (o_spacing c))"
proof -
  from assms obtain item where i: "item \<in> set BAR_AREAS" and c: "c = evaluate_bar Ap Ar item"
    by auto
  have "(fst item, snd item) \<in> set BAR_AREAS" using i by simp
  then show ?thesis unfolding c evaluate_bar_fields
    using spacing_practical_range[of "snd item * 1000 / Ap"] spacing_practical_dvd[of "snd item * 1000 / Ap"]
    by (simp add: spacing_practical_def)
qed


lemma threshold:
  assumes "slab_locals span_m dead_load live_load concrete_grade steel_grade cover = Inr L"
  shows "l_K L = l_moment L * 1000000 / (1000 * l_effective_depth L ^ 2 * of_int (l_fck L))"
    "l_K L \<le> 0.156 \<longrightarrow> 0 \<le> 0.25 - l_K L / 1.134
       \<and> py_sqrt (0.25 - l_K L / 1.134) = Inr (sqrt (0.25 - l_K L / 1.134))
       \<and> l_z L = min (l_effective_depth L * (0.5 + sqrt (0.25 - l_K L / 1.134)))
                      (0.95 * l_effective_depth L)"
    "0.156 < l_K L \<longrightarrow> l_z L = 0.95 * l_effective_depth L"
proof -
  note f = slab_locals_Inr[OF assms(1)]
  show "l_K L = l_moment L * 1000000 / (1000 * l_effective_depth L ^ 2 * of_int (l_fck L))"
    by (rule f(8))
  from f(9) have z: "l_z L = (if l_K L \<le> K_prime
      then min (l_effective_depth L * (0.5 + sqrt (0.25 - l_K L / 1.134))) (0.95 * l_effective_depth L)
      else 0.95 * l_effective_depth L)"
    unfolding lever_arm_Inr by simp
  show "l_K L \<le> 0.156 \<longrightarrow> 0 \<le> 0.25 - l_K L / 1.134
       \<and> py_sqrt (0.25 - l_K L / 1.134) = Inr (sqrt (0.25 - l_K L / 1.134))
       \<and> l_z L = min (l_effective_depth L * (0.5 + sqrt (0.25 - l_K L / 1.134)))
                      (0.95 * l_effective_depth L)"
  proof
    assume k: "l_K L \<le> 0.156"
    then have nn: "0 \<le> 0.25 - l_K L / 1.134" by simp
    moreover have "py_sqrt (0.25 - l_K L / 1.134) = Inr (sqrt (0.25 - l_K L / 1.134))"
      using nn unfolding py_sqrt_def by simp
    moreover have "l_z L = min (l_effective_depth L * (0.5 + sqrt (0.25 - l_K L / 1.134)))
                      (0.95 * l_effective_depth L)"
      using k unfolding z K_prime_def by simp
    ultimately show "0 \<le> 0.25 - l_K L / 1.134
       \<and> py_sqrt (0.25 - l_K L / 1.134) = Inr (sqrt (0.25 - l_K L / 1.134))
       \<and> l_z L = min (l_effective_depth L * (0.5 + sqrt (0.25 - l_K L / 1.134)))
                      (0.95 * l_effective_depth L)" by blast
  qed
  show "0.156 < l_K L \<longrightarrow> l_z L = 0.95 * l_effective_depth L"
    unfolding z K_prime_def by simp
qed


lemma inadequate_spacing_75:
  assumes "0 < Ap" "Ar \<le> Ap" "\<not> o_adequate (evaluate_bar Ap Ar item)"
  shows "spacing_practical (snd item * 1000 / Ap) = 75"
proof (rule ccontr)
  assume n: "spacing_practical (snd item * 1000 / Ap) \<noteq> 75"
  define sp where "sp = spacing_practical (snd item * 1000 / Ap)"
  have le: "of_int sp \<le> snd item * 1000 / Ap" unfolding sp_def by (rule spacing_practical_le[OF n])
  have pos: "0 < (of_int sp :: real)" unfolding sp_def
    using spacing_practical_range[of "snd item * 1000 / Ap"] by simp
  from le assms(1) have "of_int sp * Ap \<le> snd item * 1000" by (simp add: pos_le_divide_eq)
  then have "Ap \<le> snd item * 1000 / of_int sp" using pos by (simp add: pos_le_divide_eq mult.commute)
  with assms(2) have "Ar \<le> snd item * 1000 / of_int sp" by linarith
  with assms(3) show False unfolding sp_def by (simp add: evaluate_bar_fields)
qed

lemma none_adequate_options:
  assumes "0 < Ap" "Ar \<le> Ap" "\<forall>c\<in>set (map (evaluate_bar Ap Ar) BAR_AREAS). \<not> o_adequate c"
  shows "map (evaluate_bar Ap Ar) BAR_AREAS =
     map (\<lambda>item. \<lparr>o_bar_size = fst item, o_bar_area = snd item, o_spacing = 75,
                    o_As_actual = py_round (snd item * 1000 / 75) 1, o_adequate = False\<rparr>) BAR_AREAS"
proof (rule map_cong[OF refl])
  fix item assume "item \<in> set BAR_AREAS"
  with assms(3) have na: "\<not> o_adequate (evaluate_bar Ap Ar item)" by simp
  have sp: "spacing_practical (snd item * 1000 / Ap) = 75"
    by (rule inadequate_spacing_75[OF assms(1,2) na])
  from na have "\<not> Ar \<le> snd item * 1000 / 75" unfolding evaluate_bar_fields sp by simp
  then show "evaluate_bar Ap Ar item = \<lparr>o_bar_size = fst item, o_bar_area = snd item, o_spacing = 75,
                    o_As_actual = py_round (snd item * 1000 / 75) 1, o_adequate = False\<rparr>"
    unfolding evaluate_bar_def Let_def sp by simp
qed

lemma none_adequate_selected:
  assumes "0 < Ap" "Ar \<le> Ap" "options_loop Ap Ar BAR_AREAS [] = Inr opts"
    "\<forall>c\<in>set opts. \<not> o_adequate c"
  shows "\<exists>s. select_option opts = Inr s \<and> s \<in> set opts
     \<and> (\<forall>c\<in>set opts. c \<noteq> s \<longrightarrow>
           o_bar_area c * 1000 / of_int (o_spacing c) < o_bar_area s * 1000 / of_int (o_spacing s))"
proof -
  from assms(3) have o: "opts = map (evaluate_bar Ap Ar) BAR_AREAS"
    unfolding options_loop_pos[OF assms(1)] by simp
  have e: "opts = map (\<lambda>item. \<lparr>o_bar_size = fst item, o_bar_area = snd item, o_spacing = 75,
                    o_As_actual = py_round (snd item * 1000 / 75) 1, o_adequate = False\<rparr>) BAR_AREAS"
    using none_adequate_options[OF assms(1,2)] assms(4) unfolding o by simp
  let ?s = "\<lparr>o_bar_size = ''Y25'', o_bar_area = 490.9, o_spacing = 75,
                    o_As_actual = py_round (490.9 * 1000 / 75) 1, o_adequate = False\<rparr>"
  have "select_option opts = Inr ?s"
    unfolding e BAR_AREAS_def
    by (simp add: select_option_def py_max_by_def py_round_def round_half_even_def Let_def)
  moreover have "?s \<in> set opts" unfolding e BAR_AREAS_def by simp
  moreover have "\<forall>c\<in>set opts. c \<noteq> ?s \<longrightarrow>
           o_bar_area c * 1000 / of_int (o_spacing c) < o_bar_area ?s * 1000 / of_int (o_spacing ?s)"
    unfolding e BAR_AREAS_def by simp
  ultimately show ?thesis by blast
qed


lemma slab_locals_forward_selected:
  assumes cg: "CONCRETE_GRADES concrete_grade = Some cp" and sg: "STEEL_GRADES steel_grade = Some sp"
    and ul: "ul = (1.4 * dead_load) + (1.6 * live_load)"
    and M: "M = (ul * span_m ^ 2) / 8"
    and sd: "sd = \<lceil>(span_m * 1000) / 25 / 25\<rceil> * 25"
    and d: "d = of_int sd - cover - (12 / 2)"
    and K: "py_div (M * 1000000) (1000 * d ^ 2 * of_int (fck cp)) = Inr K"
    and z: "lever_arm K d = Inr z"
    and Ar: "py_div (M * 1000000) (0.87 * of_int (fy sp) * z) = Inr Ar"
    and Amin: "Amin = 0.0013 * 1000 * of_int sd"
    and Ap: "Ap = max Ar Amin"
    and opts: "options_loop Ap Ar BAR_AREAS [] = Inr opts"
    and sel: "select_option opts = Inr sel"
  shows "slab_locals span_m dead_load live_load concrete_grade steel_grade cover =
     ebind (modification_factor Ap Ar (of_int (fy sp)) M d) (\<lambda>mf.
     ebind (py_div (span_m * 1000) (of_int sd)) (\<lambda>actual_span_depth.
     ebind (concrete_shear_strength Ap d (of_int (fck cp))) (\<lambda>vc.
     ebind (py_div ((ul * span_m) / 2 * 1000) (1000 * d)) (\<lambda>shear_stress.
     Inr \<lparr>l_fck = fck cp, l_fy = fy sp,
          l_ultimate_load = ul, l_moment = M,
          l_estimated_depth = (span_m * 1000) / 25, l_slab_depth = sd,
          l_effective_depth = d,
          l_K = K, l_z = z,
          l_As_required = Ar, l_As_min = Amin, l_As_provided = Ap,
          l_reinforcement_options = opts, l_selected = sel,
          l_mf = mf, l_allowable_span_depth = 26 * mf,
          l_actual_span_depth = actual_span_depth,
          l_V = (ul * span_m) / 2, l_vc = vc, l_shear_stress = shear_stress\<rparr>))))"
proof -
  note steps = K z Ar opts sel
  have lc: "lookup CONCRETE_GRADES concrete_grade = Inr cp" using cg by (simp add: lookup_def)
  have ls: "lookup STEEL_GRADES steel_grade = Inr sp" using sg by (simp add: lookup_def)
  show ?thesis
    unfolding slab_locals_def Let_def lc ls ebind_Inr
    using steps unfolding Ap Amin d sd M ul
    by (simp only: ebind_Inr)
qed

lemma py_div_not_ValueError: "py_div x y \<noteq> Inl ValueError"
  by (simp add: py_div_def)

lemma modification_factor_not_ValueError:
  "modification_factor Ap Ar fy_v M d \<noteq> Inl ValueError"
  by (simp add: modification_factor_def py_div_def ebind_def)

lemma concrete_shear_strength_not_ValueError:
  "0 \<le> f \<Longrightarrow> concrete_shear_strength Ap d f \<noteq> Inl ValueError"
  by (simp add: concrete_shear_strength_def py_div_def py_sqrt_def ebind_def)

lemma slab_locals_not_ValueError:
  assumes cg: "CONCRETE_GRADES concrete_grade = Some cp" and sg: "STEEL_GRADES steel_grade = Some sp"
    and span: "0 < span_m"
  shows "slab_locals span_m dead_load live_load concrete_grade steel_grade cover \<noteq> Inl ValueError"
proof (cases "of_int (\<lceil>(span_m * 1000) / 25 / 25\<rceil> * 25) - cover - (12 / 2 :: real) = 0")
  case True
  show ?thesis unfolding slab_locals_zero_depth[OF cg sg True] by simp
next
  case False
  define ul where "ul = (1.4 * dead_load) + (1.6 * live_load)"
  define M where "M = (ul * span_m ^ 2) / 8"
  define sd where "sd = \<lceil>(span_m * 1000) / 25 / 25\<rceil> * 25"
  define d where "d = of_int sd - cover - (12 / 2 :: real)"
  have dnz: "d \<noteq> 0" unfolding d_def sd_def by (rule False)
  have sd25: "25 \<le> sd" unfolding sd_def by (rule slab_depth_ge_25[OF span])
  have fckp: "0 < fck cp" by (rule concrete_fck_pos[OF cg])
  have fyp: "0 < fy sp" by (rule steel_fy_pos[OF sg])
  define K where "K = (M * 1000000) / (1000 * d ^ 2 * of_int (fck cp))"
  have Kstep: "py_div (M * 1000000) (1000 * d ^ 2 * of_int (fck cp)) = Inr K"
    unfolding K_def using dnz fckp by (simp add: py_div_def)
  obtain z where zstep: "lever_arm K d = Inr z" using lever_arm_Inr[of K d] by blast
  have znz: "z \<noteq> 0" using lever_arm_sign[OF zstep] dnz by (cases "0 < d") auto
  define Ar where "Ar = (M * 1000000) / (0.87 * of_int (fy sp) * z)"
  have Arstep: "py_div (M * 1000000) (0.87 * of_int (fy sp) * z) = Inr Ar"
    unfolding Ar_def using znz fyp by (simp add: py_div_def)
  define Amin where "Amin = 0.0013 * 1000 * real_of_int sd"
  define Ap where "Ap = max Ar Amin"
  have "0 < Amin" unfolding Amin_def using sd25 by simp
  then have App: "0 < Ap" unfolding Ap_def by simp
  define opts where "opts = map (evaluate_bar Ap Ar) BAR_AREAS"
  have optstep: "options_loop Ap Ar BAR_AREAS [] = Inr opts"
    unfolding opts_def using options_loop_pos[OF App, of Ar BAR_AREAS "[]"] by simp
  have "opts \<noteq> []" unfolding opts_def by (simp add: BAR_AREAS_def)
  from select_option_nonempty[OF this] obtain sel where selstep: "select_option opts = Inr sel"
    by blast
  have f: "0 \<le> real_of_int (fck cp)" using fckp by simp
  show ?thesis
    unfolding slab_locals_forward_selected[OF cg sg ul_def M_def sd_def d_def Kstep zstep Arstep
        Amin_def Ap_def optstep selstep]
    using modification_factor_not_ValueError[of Ap Ar "of_int (fy sp)" M d]
      py_div_not_ValueError concrete_shear_strength_not_ValueError[OF f, of Ap d]
    by (auto simp: ebind_eq_Inl)
qed

lemma selection_step_safe:
  assumes "0 < (span_m :: real)"
  shows "25 \<le> \<lceil>(span_m * 1000) / 25 / 25\<rceil> * 25"
    "32.5 \<le> 0.0013 * 1000 * real_of_int (\<lceil>(span_m * 1000) / 25 / 25\<rceil> * 25)"
    "0 < max Ar (0.0013 * 1000 * real_of_int (\<lceil>(span_m * 1000) / 25 / 25\<rceil> * 25))"
    "\<exists>opts s. options_loop (max Ar (0.0013 * 1000 * real_of_int (\<lceil>(span_m * 1000) / 25 / 25\<rceil> * 25)))
                 Ar BAR_AREAS [] = Inr opts
        \<and> map o_bar_size opts = map fst BAR_AREAS \<and> length opts = 6
        \<and> select_option opts = Inr s \<and> s \<in> set opts"
proof -
  show a: "25 \<le> \<lceil>(span_m * 1000) / 25 / 25\<rceil> * 25" by (rule slab_depth_ge_25[OF assms])
  then show b: "32.5 \<le> 0.0013 * 1000 * real_of_int (\<lceil>(span_m * 1000) / 25 / 25\<rceil> * 25)" by simp
  define Ap where "Ap = max Ar (0.0013 * 1000 * real_of_int (\<lceil>(span_m * 1000) / 25 / 25\<rceil> * 25))"
  have "0 < 0.0013 * 1000 * real_of_int (\<lceil>(span_m * 1000) / 25 / 25\<rceil> * 25)" using b by linarith
  then have p: "0 < Ap" unfolding Ap_def by (rule less_max_iff_disj[THEN iffD2, OF disjI2])
  then show "0 < max Ar (0.0013 * 1000 * real_of_int (\<lceil>(span_m * 1000) / 25 / 25\<rceil> * 25))"
    by (simp only: Ap_def)
  define opts where "opts = map (evaluate_bar Ap Ar) BAR_AREAS"
  have o: "options_loop Ap Ar BAR_AREAS [] = Inr opts"
    unfolding opts_def using options_loop_pos[OF p, of Ar BAR_AREAS "[]"] by simp
  have n: "map o_bar_size opts = map fst BAR_AREAS" unfolding opts_def
    by (simp add: evaluate_bar_fields comp_def)
  have l: "length opts = 6" unfolding opts_def by (simp add: BAR_AREAS_def)
  then have "opts \<noteq> []" by auto
  from select_option_nonempty[OF this] o n l
  show "\<exists>opts s. options_loop (max Ar (0.0013 * 1000 * real_of_int (\<lceil>(span_m * 1000) / 25 / 25\<rceil> * 25)))
                 Ar BAR_AREAS [] = Inr opts
        \<and> map o_bar_size opts = map fst BAR_AREAS \<and> length opts = 6
        \<and> select_option opts = Inr s \<and> s \<in> set opts"
    unfolding Ap_def by blast
qed

subsection \<open>Concrete runs\<close>

lemma example_runs:
  "\<exists>L. slab_locals 5 3 2 ''C25'' ''460'' 25 = Inr L"
  "\<exists>L. slab_locals 4 4 2 ''C25'' ''460'' 25 = Inr L"
  "\<exists>L. slab_locals 4 0 0 ''C25'' ''460'' 25 = Inr L"
  "\<exists>L. slab_locals 5 0 0 ''C25'' ''460'' 25 = Inr L"
  "\<exists>L. slab_locals 12 50 20 ''C25'' ''460'' 25 = Inr L"
  by (rule slab_locals_success[OF C25_known S460_known]; simp)+

lemma zero_load_moment:
  "map_sum id l_moment (slab_locals 4 0 0 ''C25'' ''460'' 25) = Inr 0"
  "map_sum id l_moment (slab_locals 5 0 0 ''C25'' ''460'' 25) = Inr 0"
  "map_sum id r_moment (calculate_slab_design 4 0 0 ''C25'' ''460'' 25) = Inr 0"
  "map_sum id r_moment (calculate_slab_design 5 0 0 ''C25'' ''460'' 25) = Inr 0"
proof -
  from example_runs(3) obtain L4 where L4: "slab_locals 4 0 0 ''C25'' ''460'' 25 = Inr L4" by blast
  from example_runs(4) obtain L5 where L5: "slab_locals 5 0 0 ''C25'' ''460'' 25 = Inr L5" by blast
  have m4: "l_moment L4 = 0" using slab_locals_Inr(2,3)[OF L4] by simp
  have m5: "l_moment L5 = 0" using slab_locals_Inr(2,3)[OF L5] by simp
  have r0: "py_round 0 2 = 0" by (simp add: py_round_def round_half_even_def)
  show "map_sum id l_moment (slab_locals 4 0 0 ''C25'' ''460'' 25) = Inr 0" unfolding L4 using m4 by simp
  show "map_sum id l_moment (slab_locals 5 0 0 ''C25'' ''460'' 25) = Inr 0" unfolding L5 using m5 by simp
  show "map_sum id r_moment (calculate_slab_design 4 0 0 ''C25'' ''460'' 25) = Inr 0"
    unfolding calculate_slab_design_def L4 by (simp add: results_of_def m4 r0)
  show "map_sum id r_moment (calculate_slab_design 5 0 0 ''C25'' ''460'' 25) = Inr 0"
    unfolding calculate_slab_design_def L5 by (simp add: results_of_def m5 r0)
qed

lemma options_270:
  "options_loop 270 270 BAR_AREAS [] = Inr
     [\<lparr>o_bar_size = ''Y8'', o_bar_area = 50.3, o_spacing = 175, o_As_actual = 287.4, o_adequate = True\<rparr>,
      \<lparr>o_bar_size = ''Y10'', o_bar_area = 78.5, o_spacing = 275, o_As_actual = 285.5, o_adequate = True\<rparr>,
      \<lparr>o_bar_size = ''Y12'', o_bar_area = 113.1, o_spacing = 300, o_As_actual = 377, o_adequate = True\<rparr>,
      \<lparr>o_bar_size = ''Y16'', o_bar_area = 201.1, o_spacing = 300, o_As_actual = 670.3, o_adequate = True\<rparr>,
      \<lparr>o_bar_size = ''Y20'', o_bar_area = 314.2, o_spacing = 300, o_As_actual = 1047.3, o_adequate = True\<rparr>,
      \<lparr>o_bar_size = ''Y25'', o_bar_area = 490.9, o_spacing = 300, o_As_actual = 1636.3, o_adequate = True\<rparr>]"
  unfolding options_loop_pos[of 270 270 BAR_AREAS "[]", simplified]
  by (simp add: BAR_AREAS_def evaluate_bar_def spacing_practical_def py_round_def round_half_even_def Let_def)

lemma options_7000:
  "options_loop 7000 7000 BAR_AREAS [] = Inr
     [\<lparr>o_bar_size = ''Y8'', o_bar_area = 50.3, o_spacing = 75, o_As_actual = 670.7, o_adequate = False\<rparr>,
      \<lparr>o_bar_size = ''Y10'', o_bar_area = 78.5, o_spacing = 75, o_As_actual = 1046.7, o_adequate = False\<rparr>,
      \<lparr>o_bar_size = ''Y12'', o_bar_area = 113.1, o_spacing = 75, o_As_actual = 1508, o_adequate = False\<rparr>,
      \<lparr>o_bar_size = ''Y16'', o_bar_area = 201.1, o_spacing = 75, o_As_actual = 2681.3, o_adequate = False\<rparr>,
      \<lparr>o_bar_size = ''Y20'', o_bar_area = 314.2, o_spacing = 75, o_As_actual = 4189.3, o_adequate = False\<rparr>,
      \<lparr>o_bar_size = ''Y25'', o_bar_area = 490.9, o_spacing = 75, o_As_actual = 6545.3, o_adequate = False\<rparr>]"
  unfolding options_loop_pos[of 7000 7000 BAR_AREAS "[]", simplified]
  by (simp add: BAR_AREAS_def evaluate_bar_def spacing_practical_def py_round_def round_half_even_def Let_def)

lemma heavy_run:
  "\<exists>L. slab_locals 12 50 20 ''C25'' ''460'' 25 = Inr L
     \<and> l_effective_depth L = 469 \<and> l_K L = 1836000000 / 5499025000"
proof -
  from example_runs(5) obtain L where L: "slab_locals 12 50 20 ''C25'' ''460'' 25 = Inr L" by blast
  note f = slab_locals_Inr[OF L]
  have fck: "l_fck L = 25" using f(1) C25_known by auto
  have ul: "l_ultimate_load L = 102" using f(2) by simp
  have M: "l_moment L = 1836" using f(3) unfolding ul by simp
  have e: "l_estimated_depth L = 480" using f(4) by simp
  have sd: "l_slab_depth L = 500" using f(5) unfolding e by simp
  have d: "l_effective_depth L = 469" using f(6) unfolding sd by simp
  have K: "l_K L = 1836000000 / 5499025000" using f(8) unfolding M d fck by simp
  show ?thesis using L d K by blast
qed

subsection \<open>The selection step on numbers\<close>

lemma selection_never_empty:
  assumes "CONCRETE_GRADES concrete_grade = Some cp" and "STEEL_GRADES steel_grade = Some sp"
    and "0 < span_m"
  shows "25 \<le> \<lceil>(span_m * 1000) / 25 / 25\<rceil> * 25
     \<and> 32.5 \<le> 0.0013 * 1000 * real_of_int (\<lceil>(span_m * 1000) / 25 / 25\<rceil> * 25)
     \<and> (\<forall>As_required.
           0 < max As_required (0.0013 * 1000 * real_of_int (\<lceil>(span_m * 1000) / 25 / 25\<rceil> * 25))
         \<and> (\<exists>opts s.
               options_loop
                 (max As_required (0.0013 * 1000 * real_of_int (\<lceil>(span_m * 1000) / 25 / 25\<rceil> * 25)))
                 As_required BAR_AREAS [] = Inr opts
             \<and> map o_bar_size opts = map fst BAR_AREAS \<and> length opts = 6
             \<and> select_option opts = Inr s \<and> s \<in> set opts))
     \<and> calculate_slab_design span_m dead_load live_load concrete_grade steel_grade cover
           \<noteq> Inl ValueError
     \<and> (\<forall>r. calculate_slab_design span_m dead_load live_load concrete_grade steel_grade cover = Inr r
           \<longrightarrow> 32.5 \<le> r_As_min r \<and> 0 < r_As_provided r
             \<and> length (r_reinforcement_options r) = 6
             \<and> r_selected_reinforcement r \<in> set (r_reinforcement_options r))"
proof -
  note s = selection_step_safe[OF assms(3)]
  have v: "calculate_slab_design span_m dead_load live_load concrete_grade steel_grade cover
           \<noteq> Inl ValueError"
    using slab_locals_not_ValueError[OF assms, of dead_load live_load cover]
    unfolding calculate_slab_design_def by (auto simp: ebind_eq_Inl)
  have res: "32.5 \<le> r_As_min r \<and> 0 < r_As_provided r
             \<and> length (r_reinforcement_options r) = 6
             \<and> r_selected_reinforcement r \<in> set (r_reinforcement_options r)"
    if c: "calculate_slab_design span_m dead_load live_load concrete_grade steel_grade cover = Inr r"
    for r
  proof -
    from c obtain L where
      L: "slab_locals span_m dead_load live_load concrete_grade steel_grade cover = Inr L"
      and r: "r = results_of span_m dead_load live_load concrete_grade steel_grade cover L"
      unfolding calculate_slab_design_Inr by blast
    note f = slab_locals_Inr[OF L]
    note ms = min_steel[OF L]
    have sd: "l_slab_depth L = \<lceil>(span_m * 1000) / 25 / 25\<rceil> * 25" unfolding f(5) f(4) by simp
    have m: "32.5 \<le> l_As_min L" unfolding f(11) sd using s(2) by simp
    have rm: "r_As_min r = l_As_min L" unfolding r using ms(4) by (simp add: results_of_def)
    have rp: "r_As_provided r = max (py_round (l_As_required L) 1) (l_As_min L)"
      unfolding r using ms(4,5) by (simp add: results_of_def)
    have p: "0 < r_As_provided r" unfolding rp using m by (simp add: less_max_iff_disj)
    have o: "r_reinforcement_options r = map (evaluate_bar (l_As_provided L) (l_As_required L)) BAR_AREAS"
      unfolding r using options_of_run(2)[OF L] by (simp add: results_of_def)
    have l: "length (r_reinforcement_options r) = 6" unfolding o by (simp add: BAR_AREAS_def)
    have ne: "l_reinforcement_options L \<noteq> []"
      unfolding options_of_run(2)[OF L] by (simp add: BAR_AREAS_def)
    from select_option_nonempty[OF ne] f(14) have "l_selected L \<in> set (l_reinforcement_options L)"
      by auto
    then have sel: "r_selected_reinforcement r \<in> set (r_reinforcement_options r)"
      unfolding r by (simp add: results_of_def)
    from m p l sel show ?thesis unfolding rm by blast
  qed
  from s(1) s(2) s(3) s(4) v res show ?thesis by blast
qed

subsection \<open>Agreement of the two models on numbers, and runs with NaN\<close>

lemma ebind_map_sum: "ebind (map_sum id g m) f = ebind m (\<lambda>x. f (g x))"
  by (cases m) simp_all

lemma map_sum_ebind: "map_sum id g (ebind m f) = ebind m (\<lambda>x. map_sum id g (f x))"
  by (cases m) simp_all

lemma fdiv_Num: "fdiv (Num x) (Num y) = map_sum id Num (py_div x y)"
  by (simp add: py_div_def)

lemma fsqrt_Num: "fsqrt (Num x) = map_sum id Num (py_sqrt x)"
  by (simp add: py_sqrt_def)

lemma fmin_Num: "fmin (Num x) (Num y) = Num (min x y)"
  by (auto simp: fmin_def min_def)

lemma fmax_Num: "fmax (Num x) (Num y) = Num (max x y)"
  by (auto simp: fmax_def max_def)

lemma lever_arm_py_Num: "lever_arm_py (Num K) (Num d) = map_sum id Num (lever_arm K d)"
  by (simp add: lever_arm_py_def lever_arm_def py_sqrt_def fmin_Num)

lemma options_loop_py_Num:
  "options_loop_py (Num Ap) (Num Ar) bars acc = options_loop Ap Ar bars acc"
proof (induction bars arbitrary: acc)
  case Nil
  show ?case by simp
next
  case (Cons item bars)
  obtain bar_size bar_area where item: "item = (bar_size, bar_area)" by (cases item)
  have nz: "max 75 (min n 300) \<noteq> (0::int)" for n by simp
  show ?case unfolding item
    by (simp add: Cons.IH py_div_def spacing_practical_def Let_def nz)
qed

lemma modification_factor_py_Num:
  "modification_factor_py (Num Ap) (Num Ar) f (Num M) (Num d)
     = map_sum id Num (modification_factor Ap Ar f M d)"
  by (simp add: modification_factor_py_def modification_factor_def py_div_def fmin_Num fmax_Num)

lemma concrete_shear_strength_py_Num:
  "concrete_shear_strength_py (Num Ap) (Num d) f = map_sum id Num (concrete_shear_strength Ap d f)"
  by (simp add: concrete_shear_strength_py_def concrete_shear_strength_def py_div_def py_sqrt_def
      fmin_Num)

lemma slab_locals_py_Num:
  "slab_locals_py (Num span_m) (Num dead_load) (Num live_load) concrete_grade steel_grade (Num cover)
     = map_sum id lift_locals (slab_locals span_m dead_load live_load concrete_grade steel_grade cover)"
  unfolding slab_locals_py_def slab_locals_def
  by (simp add: Let_def map_sum_ebind ebind_map_sum fdiv_Num fmax_Num lever_arm_py_Num
      options_loop_py_Num modification_factor_py_Num concrete_shear_strength_py_Num lift_locals_def
      mult.commute
      del: fdiv.simps)

lemma results_py_of_Num:
  "results_py_of (Num span_m) (Num dead_load) (Num live_load) concrete_grade steel_grade (Num cover)
     (lift_locals L)
   = lift_results (results_of span_m dead_load live_load concrete_grade steel_grade cover L)"
  by (simp add: results_py_of_def lift_locals_def lift_results_def results_of_def)

lemma calculate_slab_design_py_Num:
  "calculate_slab_design_py (Num span_m) (Num dead_load) (Num live_load) concrete_grade steel_grade
     (Num cover)
   = map_sum id lift_results
       (calculate_slab_design span_m dead_load live_load concrete_grade steel_grade cover)"
  unfolding calculate_slab_design_py_def calculate_slab_design_def slab_locals_py_Num
  by (simp add: ebind_map_sum map_sum_ebind results_py_of_Num)

lemma nan_load_locals:
  "slab_locals_py (Num 4) NaN (Num 2) ''C25'' ''460'' (Num 25) = Inl ValueError"
  unfolding slab_locals_py_def
  by (simp add: lookup_def C25_known S460_known Let_def lever_arm_py_def fmax_def BAR_AREAS_def
      select_option_def py_max_by_def)

lemma nan_load_steps:
  "fmax NaN (Num 227.5) = NaN"
  "options_loop_py NaN NaN BAR_AREAS [] = Inr []"
  "select_option [] = Inl ValueError"
  by (simp_all add: fmax_def BAR_AREAS_def select_option_def py_max_by_def)

lemma nan_cover_locals:
  "slab_locals_py (Num 4) (Num 3) (Num 2) ''C25'' ''460'' NaN = Inl ValueError"
  unfolding slab_locals_py_def
  by (simp add: lookup_def C25_known S460_known Let_def)

subsection \<open>Double rounding never reverses an order\<close>

lemma fl_ulp_pos: "0 < fl_ulp x" by (simp add: fl_ulp_def)

lemma fl_exponent_bounds:
  assumes "0 < x"
  shows "x < 2 powr (of_int (fl_exponent x) + 1)"
    and "- 1022 \<le> \<lfloor>log 2 x\<rfloor> \<Longrightarrow> 2 powr (of_int (fl_exponent x)) \<le> x"
proof -
  define e where "e = \<lfloor>log 2 x\<rfloor>"
  have b: "2 powr (of_int e) \<le> x \<and> x < 2 powr (of_int e + 1)"
    using floor_log_eq_powr_iff[of x 2 e] assms unfolding e_def by simp
  have ax: "\<bar>x\<bar> = x" using assms by simp
  have le: "e \<le> fl_exponent x" unfolding fl_exponent_def e_def ax by simp
  then have "(2::real) powr (of_int e + 1) \<le> 2 powr (of_int (fl_exponent x) + 1)" by simp
  with b show "x < 2 powr (of_int (fl_exponent x) + 1)" by linarith
  assume "- 1022 \<le> \<lfloor>log 2 x\<rfloor>"
  then have "fl_exponent x = e" unfolding fl_exponent_def e_def ax by simp
  with b show "2 powr (of_int (fl_exponent x)) \<le> x" by simp
qed

lemma round_half_even_le: "y \<le> of_int N \<Longrightarrow> round_half_even y \<le> N"
  using round_half_even_mono[of y "of_int N"] by simp

lemma round_half_even_ge: "of_int N \<le> y \<Longrightarrow> N \<le> round_half_even y"
  using round_half_even_mono[of "of_int N" y] by simp

lemma fl_nonneg: "0 \<le> x \<Longrightarrow> 0 \<le> fl x"
proof (cases "x = 0")
  case True then show ?thesis by (simp add: fl_def)
next
  case False
  assume "0 \<le> x"
  then have "of_int 0 \<le> x / fl_ulp x" using fl_ulp_pos[of x] by simp
  then have "0 \<le> round_half_even (x / fl_ulp x)" by (rule round_half_even_ge)
  then show ?thesis using False fl_ulp_pos[of x] by (simp add: fl_def)
qed

lemma fl_upper:
  assumes "0 < x"
  shows "fl x \<le> 2 powr (of_int (fl_exponent x) + 1)"
proof -
  have u: "fl_ulp x * 2 ^ 53 = 2 powr (of_int (fl_exponent x) + 1)"
  proof -
    have "(2::real) ^ 53 = 2 powr 53" by simp
    then have "fl_ulp x * 2 ^ 53 = 2 powr (of_int (fl_exponent x) - 52 + 53)"
      unfolding fl_ulp_def by (simp only: powr_add)
    moreover have "real_of_int (fl_exponent x) - 52 + 53 = of_int (fl_exponent x) + 1" by simp
    ultimately show ?thesis by (simp only:)
  qed
  have "x / fl_ulp x \<le> 2 ^ 53"
    using fl_exponent_bounds(1)[OF assms] fl_ulp_pos[of x] unfolding u[symmetric]
    by (simp add: pos_divide_le_eq mult.commute)
  then have "x / fl_ulp x \<le> of_int (2 ^ 53)" by simp
  then have "round_half_even (x / fl_ulp x) \<le> 2 ^ 53" by (rule round_half_even_le)
  then have "real_of_int (round_half_even (x / fl_ulp x)) \<le> 2 ^ 53"
    by (metis of_int_le_iff of_int_numeral of_int_power)
  then have "real_of_int (round_half_even (x / fl_ulp x)) * fl_ulp x \<le> 2 ^ 53 * fl_ulp x"
    using fl_ulp_pos[of x] by (simp add: mult_right_mono)
  then show ?thesis using assms u by (simp add: fl_def mult.commute)
qed

lemma fl_lower:
  assumes "0 < x" "- 1022 \<le> \<lfloor>log 2 x\<rfloor>"
  shows "2 powr (of_int (fl_exponent x)) \<le> fl x"
proof -
  have u: "fl_ulp x * 2 ^ 52 = 2 powr (of_int (fl_exponent x))"
  proof -
    have "(2::real) ^ 52 = 2 powr 52" by simp
    then have "fl_ulp x * 2 ^ 52 = 2 powr (of_int (fl_exponent x) - 52 + 52)"
      unfolding fl_ulp_def by (simp only: powr_add)
    moreover have "real_of_int (fl_exponent x) - 52 + 52 = of_int (fl_exponent x)" by simp
    ultimately show ?thesis by (simp only:)
  qed
  have "2 ^ 52 \<le> x / fl_ulp x"
    using fl_exponent_bounds(2)[OF assms] fl_ulp_pos[of x] unfolding u[symmetric]
    by (simp add: pos_le_divide_eq mult.commute)
  then have "of_int (2 ^ 52) \<le> x / fl_ulp x" by simp
  then have "2 ^ 52 \<le> round_half_even (x / fl_ulp x)" by (rule round_half_even_ge)
  then have "2 ^ 52 \<le> real_of_int (round_half_even (x / fl_ulp x))"
    by (metis of_int_le_iff of_int_numeral of_int_power)
  then have "2 ^ 52 * fl_ulp x \<le> real_of_int (round_half_even (x / fl_ulp x)) * fl_ulp x"
    using fl_ulp_pos[of x] by (simp add: mult_right_mono)
  then show ?thesis using assms u by (simp add: fl_def mult.commute)
qed

lemma fl_exponent_mono:
  assumes "0 < x" "x \<le> y"
  shows "fl_exponent x \<le> fl_exponent y"
proof -
  have "log 2 x \<le> log 2 y" using assms by simp
  then have "\<lfloor>log 2 x\<rfloor> \<le> \<lfloor>log 2 y\<rfloor>" by (rule floor_mono)
  moreover have "\<bar>x\<bar> = x" "\<bar>y\<bar> = y" using assms by simp_all
  ultimately show ?thesis unfolding fl_exponent_def by simp
qed

lemma fl_mono_pos:
  assumes "0 < x" "x \<le> y"
  shows "fl x \<le> fl y"
proof (cases "fl_exponent x = fl_exponent y")
  case True
  then have u: "fl_ulp y = fl_ulp x" unfolding fl_ulp_def by simp
  have "x / fl_ulp x \<le> y / fl_ulp x" using assms(2) fl_ulp_pos[of x] by (simp add: divide_right_mono)
  then have "round_half_even (x / fl_ulp x) \<le> round_half_even (y / fl_ulp x)"
    by (rule round_half_even_mono)
  then have "real_of_int (round_half_even (x / fl_ulp x)) * fl_ulp x
      \<le> real_of_int (round_half_even (y / fl_ulp x)) * fl_ulp x"
    using fl_ulp_pos[of x] by (simp add: mult_right_mono)
  then show ?thesis using assms unfolding fl_def u by simp
next
  case False
  have ypos: "0 < y" using assms by simp
  from False fl_exponent_mono[OF assms] have lt: "fl_exponent x < fl_exponent y" by simp
  have "- 1022 \<le> fl_exponent x" unfolding fl_exponent_def by simp
  with lt have "- 1022 < fl_exponent y" by simp
  then have ey: "- 1022 \<le> \<lfloor>log 2 y\<rfloor>" using ypos unfolding fl_exponent_def by (simp add: max_def split: if_splits)
  have "fl x \<le> 2 powr (of_int (fl_exponent x) + 1)" by (rule fl_upper[OF assms(1)])
  also have "\<dots> \<le> 2 powr (of_int (fl_exponent y))" using lt by simp
  also have "\<dots> \<le> fl y" by (rule fl_lower[OF ypos ey])
  finally show ?thesis .
qed

lemma fl_zero [simp]: "fl 0 = 0" by (simp add: fl_def)

lemma fl_mono:
  assumes "0 \<le> x" "x \<le> y"
  shows "fl x \<le> fl y"
proof (cases "x = 0")
  case True
  then show ?thesis using fl_nonneg[of y] assms by simp
next
  case False
  with assms(1) have "0 < x" by simp
  then show ?thesis using assms(2) by (rule fl_mono_pos)
qed

lemma py_round_zero [simp]: "py_round 0 n = 0"
  by (simp add: py_round_def round_half_even_def)

lemma round_fl_mono:
  assumes "0 \<le> x" "x \<le> y"
  shows "round_fl x n \<le> round_fl y n"
proof -
  have "py_round 0 n \<le> py_round x n" using assms(1) by (rule py_round_mono)
  then have "0 \<le> py_round x n" by simp
  moreover have "py_round x n \<le> py_round y n" using assms(2) by (rule py_round_mono)
  ultimately show ?thesis unfolding round_fl_def by (rule fl_mono)
qed

lemma ultimate_load_fl_mono:
  assumes "0 \<le> dead1" "dead1 \<le> dead2" "0 \<le> live1" "live1 \<le> live2"
  shows "ultimate_load_fl dead1 live1 \<le> ultimate_load_fl dead2 live2"
    and "0 \<le> ultimate_load_fl dead1 live1"
proof -
  have c: "0 \<le> fl 1.4" "0 \<le> fl 1.6" by (simp_all add: fl_nonneg)
  have d0: "0 \<le> fl 1.4 * dead1" using c(1) assms(1) by simp
  have l0: "0 \<le> fl 1.6 * live1" using c(2) assms(3) by simp
  have d: "fl (fl 1.4 * dead1) \<le> fl (fl 1.4 * dead2)"
    using d0 c(1) assms(2) by (intro fl_mono mult_left_mono)
  have l: "fl (fl 1.6 * live1) \<le> fl (fl 1.6 * live2)"
    using l0 c(2) assms(4) by (intro fl_mono mult_left_mono)
  have s0: "0 \<le> fl (fl 1.4 * dead1) + fl (fl 1.6 * live1)"
    using fl_nonneg[OF d0] fl_nonneg[OF l0] by simp
  show "ultimate_load_fl dead1 live1 \<le> ultimate_load_fl dead2 live2"
    unfolding ultimate_load_fl_def using s0 d l by (intro fl_mono) simp_all
  show "0 \<le> ultimate_load_fl dead1 live1"
    unfolding ultimate_load_fl_def using s0 by (rule fl_nonneg)
qed

lemma moment_fl_mono:
  assumes "0 \<le> ultimate_load_fl dead1 live1"
    "ultimate_load_fl dead1 live1 \<le> ultimate_load_fl dead2 live2"
    "0 \<le> pow2 span1" "pow2 span1 \<le> pow2 span2"
  shows "moment_fl pow2 span1 dead1 live1 \<le> moment_fl pow2 span2 dead2 live2"
    and "0 \<le> moment_fl pow2 span1 dead1 live1"
proof -
  let ?u1 = "ultimate_load_fl dead1 live1" and ?u2 = "ultimate_load_fl dead2 live2"
  have p0: "0 \<le> ?u1 * pow2 span1" using assms(1,3) by simp
  have "?u1 * pow2 span1 \<le> ?u2 * pow2 span2" using assms by (intro mult_mono) simp_all
  with p0 have m: "fl (?u1 * pow2 span1) \<le> fl (?u2 * pow2 span2)" by (rule fl_mono)
  have q0: "0 \<le> fl (?u1 * pow2 span1) / 8" using fl_nonneg[OF p0] by simp
  have "fl (?u1 * pow2 span1) / 8 \<le> fl (?u2 * pow2 span2) / 8" using m by simp
  with q0 show "moment_fl pow2 span1 dead1 live1 \<le> moment_fl pow2 span2 dead2 live2"
    unfolding moment_fl_def Let_def by (rule fl_mono)
  show "0 \<le> moment_fl pow2 span1 dead1 live1"
    unfolding moment_fl_def Let_def using q0 by (rule fl_nonneg)
qed

lemma rounded_square:
  "0 \<le> x \<Longrightarrow> 0 \<le> fl (x ^ 2)" "0 \<le> x \<Longrightarrow> x \<le> y \<Longrightarrow> fl (x ^ 2) \<le> fl (y ^ 2)"
proof -
  show "0 \<le> x \<Longrightarrow> 0 \<le> fl (x ^ 2)" by (simp add: fl_nonneg)
  assume "0 \<le> x" "x \<le> y"
  then have "x ^ 2 \<le> y ^ 2" by (intro power_mono)
  then show "fl (x ^ 2) \<le> fl (y ^ 2)" by (intro fl_mono) simp_all
qed

lemma zero_load_fl:
  "ultimate_load_fl 0 0 = 0" "moment_fl pow2 span_m 0 0 = 0" "round_fl 0 n = 0"
  by (simp_all add: ultimate_load_fl_def moment_fl_def round_fl_def)

subsection \<open>A step below the resolution of the sum\<close>

text \<open>
  Inside a binade \<open>[2\<^sup>k, 2\<^sup>k\<^sup>+\<^sup>1)\<close> the doubles are the multiples of \<open>2\<^sup>k\<^sup>-\<^sup>5\<^sup>2\<close>, and a
  non-negative term below half of that spacing added to a double is rounded away. With
  live load 2.0 the sum of line 75 lies in \<open>[2, 4)\<close>, where the spacing is \<open>2\<^sup>-\<^sup>5\<^sup>1\<close>: the
  dead load \<open>2\<^sup>-\<^sup>7\<^sup>0\<close> contributes less than \<open>2\<^sup>-\<^sup>6\<^sup>9\<close> and leaves the sum as it is for
  dead load 0.
\<close>

lemma round_half_even_near:
  "\<bar>of_int (round_half_even y) - y\<bar> \<le> 1 / 2"
  unfolding round_half_even_def Let_def by (auto; linarith)

lemma round_half_even_absorb:
  assumes "0 \<le> w" "w < 1 / 2"
  shows "round_half_even (of_int N + w) = N"
proof -
  have "\<lfloor>of_int N + w\<rfloor> = N" using assms by (intro floor_unique) auto
  then show ?thesis using assms unfolding round_half_even_def Let_def by simp
qed

lemma fl_exponent_binade:
  assumes "2 powr (of_int k) \<le> y" "y < 2 powr (of_int k + 1)" "- 1022 \<le> k"
  shows "fl_exponent y = k"
proof -
  have pos: "0 < y" using assms(1) powr_gt_zero[of 2 "of_int k"] by linarith
  then have "\<lfloor>log 2 y\<rfloor> = k" using assms(1,2) by (simp add: floor_log_eq_powr_iff)
  moreover have "\<bar>y\<bar> = y" using pos by simp
  ultimately show ?thesis using assms(3) unfolding fl_exponent_def by simp
qed

lemma fl_absorb:
  assumes "2 powr (of_int k) \<le> y" "y < 2 powr (of_int k + 1)" "- 1022 \<le> k"
    and "y = of_int N * 2 powr (of_int k - 52) + w"
    and "0 \<le> w" "w < 2 powr (of_int k - 52) / 2"
  shows "fl y = of_int N * 2 powr (of_int k - 52)"
proof -
  define u :: real where "u = 2 powr (of_int k - 52)"
  have upos: "0 < u" unfolding u_def by simp
  have pos: "0 < y" using assms(1) powr_gt_zero[of 2 "of_int k"] by linarith
  have ulp: "fl_ulp y = u" unfolding fl_ulp_def u_def fl_exponent_binade[OF assms(1,2,3)] ..
  have "y / u = of_int N + w / u" using upos assms(4) unfolding u_def by (simp add: field_simps)
  moreover have "0 \<le> w / u" using assms(5) upos by simp
  moreover have "w / u < 1 / 2" using assms(6) upos unfolding u_def by (simp add: field_simps)
  ultimately have "round_half_even (y / u) = N" by (simp add: round_half_even_absorb)
  then show ?thesis using pos unfolding fl_def ulp u_def by simp
qed

lemma fl_binade:
  assumes "2 powr (of_int k) \<le> y" "y < 2 powr (of_int k + 1)" "- 1022 \<le> k"
  shows "\<exists>N. fl y = of_int N * 2 powr (of_int k - 52)"
    and "\<bar>fl y - y\<bar> \<le> 2 powr (of_int k - 52) / 2"
proof -
  define u :: real where "u = 2 powr (of_int k - 52)"
  have upos: "0 < u" unfolding u_def by simp
  have pos: "0 < y" using assms(1) powr_gt_zero[of 2 "of_int k"] by linarith
  have ulp: "fl_ulp y = u" unfolding fl_ulp_def u_def fl_exponent_binade[OF assms(1,2,3)] ..
  have f: "fl y = of_int (round_half_even (y / u)) * u" using pos unfolding fl_def ulp by simp
  then show "\<exists>N. fl y = of_int N * 2 powr (of_int k - 52)" unfolding u_def by blast
  have "\<bar>of_int (round_half_even (y / u)) - y / u\<bar> * u \<le> 1 / 2 * u"
    using round_half_even_near[of "y / u"] upos by (intro mult_right_mono) simp_all
  moreover have "\<bar>of_int (round_half_even (y / u)) - y / u\<bar> * u = \<bar>fl y - y\<bar>"
  proof -
    have "fl y - y = (of_int (round_half_even (y / u)) - y / u) * u"
      using upos unfolding f by (simp add: field_simps)
    then show ?thesis using upos by (simp add: abs_mult)
  qed
  ultimately show "\<bar>fl y - y\<bar> \<le> 2 powr (of_int k - 52) / 2" unfolding u_def by simp
qed


lemma fl_literal_bounds:
  "1.5 \<le> fl 1.6" "fl 1.6 \<le> 1.7" "1 \<le> fl 1.4" "fl 1.4 \<le> 1.5"
  "\<exists>M. fl 1.6 = of_int M * 2 powr (- 52)"
proof -
  have small: "(2::real) powr (- 52) / 2 \<le> 1 / 10" by (simp add: powr_minus_divide)
  have b16: "2 powr (of_int 0) \<le> (1.6::real)" "(1.6::real) < 2 powr (of_int 0 + 1)" "- 1022 \<le> (0::int)"
    by simp_all
  have b14: "2 powr (of_int 0) \<le> (1.4::real)" "(1.4::real) < 2 powr (of_int 0 + 1)" by simp_all
  have e16: "\<bar>fl 1.6 - 1.6\<bar> \<le> 2 powr (- 52) / 2" using fl_binade(2)[OF b16] by simp
  have e14: "\<bar>fl 1.4 - 1.4\<bar> \<le> 2 powr (- 52) / 2" using fl_binade(2)[OF b14 b16(3)] by simp
  from e16 small show "1.5 \<le> fl 1.6" "fl 1.6 \<le> 1.7" by linarith+
  from e14 small show "1 \<le> fl 1.4" "fl 1.4 \<le> 1.5" by linarith+
  from fl_binade(1)[OF b16] show "\<exists>M. fl 1.6 = of_int M * 2 powr (- 52)" by simp
qed

lemma sub_resolution_step:
  "ultimate_load_fl (2 powr (- 70)) 2 = ultimate_load_fl 0 2"
proof -
  define c14 :: real where "c14 = fl 1.4"
  define c16 :: real where "c16 = fl 1.6"
  define t :: real where "t = 2 powr (- 70)"
  from fl_literal_bounds(5) obtain M where M: "c16 = of_int M * 2 powr (- 52)"
    unfolding c16_def by blast
  have c16b: "1.5 \<le> c16" "c16 \<le> 1.7" unfolding c16_def by (rule fl_literal_bounds)+
  have c14b: "1 \<le> c14" "c14 \<le> 1.5" unfolding c14_def by (rule fl_literal_bounds)+
  have p51: "(2::real) powr (of_int 1 - 52) = 2 powr (- 52) * 2"
  proof -
    have "(2::real) powr (- 52 + 1) = 2 powr (- 52) * 2 powr 1" by (rule powr_add)
    then show ?thesis by simp
  qed
  have v_form: "c16 * 2 = of_int M * 2 powr (of_int 1 - 52)" unfolding p51 M by simp
  have b1: "2 powr (of_int 1) \<le> c16 * 2" "c16 * 2 < 2 powr (of_int 1 + 1)" "- 1022 \<le> (1::int)"
    using c16b by simp_all
  have v: "fl (c16 * 2) = c16 * 2"
  proof -
    have "fl (c16 * 2) = of_int M * 2 powr (of_int 1 - 52)"
      by (rule fl_absorb[OF b1, where w = 0]) (simp_all add: v_form)
    then show ?thesis unfolding v_form .
  qed
  have tpos: "0 < t" unfolding t_def by simp
  have x0: "0 \<le> c14 * t" using c14b tpos by simp
  have xle: "c14 * t \<le> 2 powr (- 69)"
  proof -
    have "c14 * t \<le> 2 * t" using c14b tpos by simp
    also have "2 * t = 2 powr (- 70 + 1)" unfolding t_def by (simp only: powr_add) simp
    finally show ?thesis by simp
  qed
  have w0: "0 \<le> fl (c14 * t)" using x0 by (rule fl_nonneg)
  have wle: "fl (c14 * t) \<le> 2 powr (- 69)"
  proof -
    have "fl (c14 * t) \<le> fl (2 powr (- 69))" using x0 xle by (rule fl_mono)
    also have "fl (2 powr (- 69)) = of_int (2 ^ 52) * 2 powr (of_int (- 69) - 52)"
    proof (rule fl_absorb[where w = 0])
      have "(2::real) powr (52 + (- 69 - 52)) = 2 powr 52 * 2 powr (- 69 - 52)" by (rule powr_add)
      then show "(2::real) powr (- 69) = of_int (2 ^ 52) * 2 powr (of_int (- 69) - 52) + 0" by simp
    qed simp_all
    also have "\<dots> = 2 powr (- 69)"
    proof -
      have "(2::real) powr (52 + (- 69 - 52)) = 2 powr 52 * 2 powr (- 69 - 52)" by (rule powr_add)
      then show ?thesis by simp
    qed
    finally show ?thesis .
  qed
  have wsmall: "fl (c14 * t) < 2 powr (of_int 1 - 52) / 2"
  proof -
    have lt: "(2::real) powr (- 69) < 2 powr (- 52)" by simp
    have "fl (c14 * t) < 2 powr (- 52)" using lt wle by (rule le_less_trans[rotated])
    then show ?thesis unfolding p51 by simp
  qed
  have wtiny: "fl (c14 * t) \<le> 1 / 2"
  proof -
    have le1: "(2::real) powr (- 69) \<le> 2 powr (- 1)" by (rule powr_mono) simp_all
    have "fl (c14 * t) \<le> 2 powr (- 1)" using wle le1 by (rule order_trans)
    then show ?thesis by (simp add: powr_minus_divide)
  qed
  have b2: "2 powr (of_int 1) \<le> fl (c14 * t) + c16 * 2" "fl (c14 * t) + c16 * 2 < 2 powr (of_int 1 + 1)"
    using c16b w0 wtiny by simp_all
  have yform: "fl (c14 * t) + c16 * 2 = of_int M * 2 powr (of_int 1 - 52) + fl (c14 * t)"
    unfolding v_form by (rule add.commute)
  have "fl (fl (c14 * t) + c16 * 2) = of_int M * 2 powr (of_int 1 - 52)"
    by (rule fl_absorb[OF b2 b1(3) yform w0 wsmall])
  then have "fl (fl (c14 * t) + c16 * 2) = c16 * 2" by (simp only: v_form)
  then have a: "fl (fl (c14 * t) + fl (c16 * 2)) = c16 * 2" by (simp only: v)
  have "fl (0 + c16 * 2) = c16 * 2" using v by simp
  then have b: "fl (fl (c14 * 0) + fl (c16 * 2)) = c16 * 2" by (simp only: v mult_zero_right fl_zero)
  show ?thesis unfolding ultimate_load_fl_def c14_def[symmetric] c16_def[symmetric] t_def[symmetric]
    using a b by simp
qed

section \<open>The claims\<close>

text \<open>
  C1 (amended). For span 4.0, dead load 3.0, live load 2.0, grade C25, steel 460 and
  cover 25 the function returns a result with ultimate load 7.4, moment 14.8, slab depth
  175 (the estimated depth 160 rounded up to a multiple of 25), effective depth 144, and
  no compression reinforcement needed. The K value is 37/1296, about 0.02855, stored as
  0.0285: it is not 0.0147.
\<close>

theorem scenario_A:
  "(\<exists>r. calculate_slab_design 4 3 2 ''C25'' ''460'' 25 = Inr r
     \<and> r_ultimate_load r = 7.4 \<and> r_moment r = 14.8 \<and> r_slab_depth r = 175
     \<and> r_effective_depth r = 144 \<and> r_K r = 0.0285
     \<and> \<not> r_compression_reinforcement_needed r \<and> r_lever_arm r = 136.8)
   \<and> (\<exists>L. slab_locals 4 3 2 ''C25'' ''460'' 25 = Inr L
     \<and> l_ultimate_load L = 7.4 \<and> l_moment L = 14.8 \<and> l_estimated_depth L = 160
     \<and> l_slab_depth L = 175 \<and> l_effective_depth L = 144 \<and> l_K L = 37 / 1296
     \<and> l_z L = 136.8)"
  using scenario_A_results scenario_A_locals by (rule conjI)

text \<open>
  C1 as stated fails: the stored K of this scenario is 0.0285, not 0.0147.
\<close>

theorem scenario_A_K_counterexample:
  "map_sum id r_K (calculate_slab_design 4 3 2 ''C25'' ''460'' 25) = Inr 0.0285
   \<and> map_sum id r_K (calculate_slab_design 4 3 2 ''C25'' ''460'' 25) \<noteq> Inr 0.0147"
proof -
  from scenario_A_results obtain r where
    "calculate_slab_design 4 3 2 ''C25'' ''460'' 25 = Inr r" "r_K r = 0.0285" by blast
  then show ?thesis by simp
qed

text \<open>
  C2 (amended). For known grades, a positive span and non-negative loads, an effective
  depth \<open>slab_depth - cover - 6\<close> that is not positive never yields a result, but the
  failure is not a dedicated condition: at effective depth 0 the division of the K value
  raises \<^verbatim>\<open>ZeroDivisionError\<close>; at a negative effective depth K is computed from the
  negative depth and the run ends at the shear check with \<^verbatim>\<open>TypeError\<close>.
\<close>

theorem degenerate_depth_fails:
  assumes "CONCRETE_GRADES concrete_grade = Some cp" and "STEEL_GRADES steel_grade = Some sp"
    and "0 < span_m" and "0 \<le> dead_load" and "0 \<le> live_load"
    and "of_int (\<lceil>(span_m * 1000) / 25 / 25\<rceil> * 25) - cover - (12 / 2 :: real) \<le> 0"
  shows "calculate_slab_design span_m dead_load live_load concrete_grade steel_grade cover =
     Inl (if of_int (\<lceil>(span_m * 1000) / 25 / 25\<rceil> * 25) - cover - (12 / 2 :: real) = 0
          then ZeroDivisionError else TypeError)"
  using assms by (rule degenerate_depth)

theorem degenerate_depth_fails_witness:
  "CONCRETE_GRADES ''C25'' = Some \<lparr>fck = 25, fctm = 2.6\<rparr>
   \<and> STEEL_GRADES ''460'' = Some \<lparr>fy = 460, Es = 200000\<rparr>
   \<and> (0 :: real) < 0.5 \<and> (0 :: real) \<le> 3 \<and> (0 :: real) \<le> 2
   \<and> of_int (\<lceil>(0.5 * 1000) / 25 / 25 :: real\<rceil> * 25) - 75 - (12 / 2 :: real) \<le> 0
   \<and> calculate_slab_design 0.5 3 2 ''C25'' ''460'' 75 = Inl TypeError"
  using degenerate_depth_fails[OF C25_known S460_known, of "0.5" 3 2 75] C25_known S460_known
  by simp

text \<open>
  C2 as stated fails: with span 0.5 the slab depth is 25; cover 19 gives effective depth 0
  and an uncontrolled \<^verbatim>\<open>ZeroDivisionError\<close>, cover 75 gives effective depth -56 and a
  \<^verbatim>\<open>TypeError\<close>.
\<close>

theorem degenerate_depth_counterexample:
  "calculate_slab_design 0.5 3 2 ''C25'' ''460'' 19 = Inl ZeroDivisionError
   \<and> calculate_slab_design 0.5 3 2 ''C25'' ''460'' 75 = Inl TypeError"
  using degenerate_depth[OF C25_known S460_known, of "0.5" 3 2 19]
    degenerate_depth[OF C25_known S460_known, of "0.5" 3 2 75]
  by simp

text \<open>
  C3. When the concrete grade or the steel grade is not a key of its table, the function
  raises \<^verbatim>\<open>KeyError\<close> for that grade (the concrete grade is looked up first), whatever
  the numeric inputs are, also where the arithmetic itself would fail, and returns no
  result.
\<close>

theorem unknown_grade_fails:
  assumes "CONCRETE_GRADES concrete_grade = None \<or> STEEL_GRADES steel_grade = None"
  shows "calculate_slab_design span_m dead_load live_load concrete_grade steel_grade cover =
     Inl (KeyError (if CONCRETE_GRADES concrete_grade = None then concrete_grade else steel_grade))"
  by (rule calculate_slab_design_Inl[OF slab_locals_unknown_grade[OF assms]])

theorem unknown_grade_fails_witness:
  "(CONCRETE_GRADES ''C99'' = None \<or> STEEL_GRADES ''460'' = None) \<and>
   calculate_slab_design 0.5 3 2 ''C99'' ''460'' 19 = Inl (KeyError ''C99'')"
proof -
  have h: "CONCRETE_GRADES ''C99'' = None \<or> STEEL_GRADES ''460'' = None"
    by (simp add: C99_unknown)
  from unknown_grade_fails[OF h, of "0.5" 3 2 19] h show ?thesis by (simp add: C99_unknown)
qed

text \<open>
  C4 (amended). For numbers in the ranges the caller admits (0 < span \<le> 12,
  0 \<le> dead load \<le> 50, 0 \<le> live load \<le> 20), all other inputs fixed: a larger span never
  gives a smaller moment, and a larger dead load, or live load, never gives a smaller
  ultimate load or a smaller moment; the same holds of the stored values, rounded to two
  decimals. The increase need not be strict. This is proved of lines 75 to 81 with double
  rounding, for every \<open>pow2\<close> that is not negative and does not reverse an order on
  arguments that are not negative.
\<close>

theorem moment_never_decreases:
  assumes "\<And>x. 0 \<le> x \<Longrightarrow> 0 \<le> pow2 x"
    and "\<And>x y. 0 \<le> x \<Longrightarrow> x \<le> y \<Longrightarrow> pow2 x \<le> pow2 y"
  shows "(0 < span1 \<and> span1 \<le> span2 \<and> span2 \<le> 12 \<and> 0 \<le> dead \<and> dead \<le> 50 \<and> 0 \<le> live \<and> live \<le> 20
           \<longrightarrow> moment_fl pow2 span1 dead live \<le> moment_fl pow2 span2 dead live
             \<and> round_fl (moment_fl pow2 span1 dead live) 2
                 \<le> round_fl (moment_fl pow2 span2 dead live) 2)
    \<and> (0 < span_m \<and> span_m \<le> 12 \<and> 0 \<le> dead1 \<and> dead1 \<le> dead2 \<and> dead2 \<le> 50 \<and> 0 \<le> live \<and> live \<le> 20
           \<longrightarrow> ultimate_load_fl dead1 live \<le> ultimate_load_fl dead2 live
             \<and> round_fl (ultimate_load_fl dead1 live) 2 \<le> round_fl (ultimate_load_fl dead2 live) 2
             \<and> moment_fl pow2 span_m dead1 live \<le> moment_fl pow2 span_m dead2 live
             \<and> round_fl (moment_fl pow2 span_m dead1 live) 2
                 \<le> round_fl (moment_fl pow2 span_m dead2 live) 2)
    \<and> (0 < span_m \<and> span_m \<le> 12 \<and> 0 \<le> dead \<and> dead \<le> 50 \<and> 0 \<le> live1 \<and> live1 \<le> live2 \<and> live2 \<le> 20
           \<longrightarrow> ultimate_load_fl dead live1 \<le> ultimate_load_fl dead live2
             \<and> round_fl (ultimate_load_fl dead live1) 2 \<le> round_fl (ultimate_load_fl dead live2) 2
             \<and> moment_fl pow2 span_m dead live1 \<le> moment_fl pow2 span_m dead live2
             \<and> round_fl (moment_fl pow2 span_m dead live1) 2
                 \<le> round_fl (moment_fl pow2 span_m dead live2) 2)"
proof (intro conjI impI)
  assume h: "0 < span1 \<and> span1 \<le> span2 \<and> span2 \<le> 12 \<and> 0 \<le> dead \<and> dead \<le> 50 \<and> 0 \<le> live \<and> live \<le> 20"
  then have u: "0 \<le> ultimate_load_fl dead live" by (intro ultimate_load_fl_mono(2)[of dead dead live live]) simp_all
  have p: "0 \<le> pow2 span1" "pow2 span1 \<le> pow2 span2" using h assms by simp_all
  note m = moment_fl_mono[of dead live dead live pow2 span1 span2, OF u order_refl p]
  show "moment_fl pow2 span1 dead live \<le> moment_fl pow2 span2 dead live" by (rule m(1))
  show "round_fl (moment_fl pow2 span1 dead live) 2 \<le> round_fl (moment_fl pow2 span2 dead live) 2"
    using m(2) m(1) by (rule round_fl_mono)
next
  assume h: "0 < span_m \<and> span_m \<le> 12 \<and> 0 \<le> dead1 \<and> dead1 \<le> dead2 \<and> dead2 \<le> 50 \<and> 0 \<le> live \<and> live \<le> 20"
  then have u: "ultimate_load_fl dead1 live \<le> ultimate_load_fl dead2 live" "0 \<le> ultimate_load_fl dead1 live"
    by (intro ultimate_load_fl_mono[of dead1 dead2 live live]; simp)+
  have p: "0 \<le> pow2 span_m" using h assms(1) by simp
  note m = moment_fl_mono[of dead1 live dead2 live pow2 span_m span_m, OF u(2) u(1) p order_refl]
  show "ultimate_load_fl dead1 live \<le> ultimate_load_fl dead2 live" by (rule u(1))
  show "round_fl (ultimate_load_fl dead1 live) 2 \<le> round_fl (ultimate_load_fl dead2 live) 2"
    using u(2) u(1) by (rule round_fl_mono)
  show "moment_fl pow2 span_m dead1 live \<le> moment_fl pow2 span_m dead2 live" by (rule m(1))
  show "round_fl (moment_fl pow2 span_m dead1 live) 2 \<le> round_fl (moment_fl pow2 span_m dead2 live) 2"
    using m(2) m(1) by (rule round_fl_mono)
next
  assume h: "0 < span_m \<and> span_m \<le> 12 \<and> 0 \<le> dead \<and> dead \<le> 50 \<and> 0 \<le> live1 \<and> live1 \<le> live2 \<and> live2 \<le> 20"
  then have u: "ultimate_load_fl dead live1 \<le> ultimate_load_fl dead live2" "0 \<le> ultimate_load_fl dead live1"
    by (intro ultimate_load_fl_mono[of dead dead live1 live2]; simp)+
  have p: "0 \<le> pow2 span_m" using h assms(1) by simp
  note m = moment_fl_mono[of dead live1 dead live2 pow2 span_m span_m, OF u(2) u(1) p order_refl]
  show "ultimate_load_fl dead live1 \<le> ultimate_load_fl dead live2" by (rule u(1))
  show "round_fl (ultimate_load_fl dead live1) 2 \<le> round_fl (ultimate_load_fl dead live2) 2"
    using u(2) u(1) by (rule round_fl_mono)
  show "moment_fl pow2 span_m dead live1 \<le> moment_fl pow2 span_m dead live2" by (rule m(1))
  show "round_fl (moment_fl pow2 span_m dead live1) 2 \<le> round_fl (moment_fl pow2 span_m dead live2) 2"
    using m(2) m(1) by (rule round_fl_mono)
qed

theorem moment_never_decreases_witness:
  "(0 :: real) < 4 \<and> (4 :: real) \<le> 5 \<and> (5 :: real) \<le> 12 \<and> (0 :: real) \<le> 3 \<and> (3 :: real) \<le> 50
   \<and> (0 :: real) \<le> 2 \<and> (2 :: real) \<le> 20
   \<and> moment_fl (\<lambda>x. fl (x ^ 2)) 4 3 2 \<le> moment_fl (\<lambda>x. fl (x ^ 2)) 5 3 2
   \<and> (3 :: real) \<le> 4
   \<and> ultimate_load_fl 3 2 \<le> ultimate_load_fl 4 2
   \<and> moment_fl (\<lambda>x. fl (x ^ 2)) 4 3 2 \<le> moment_fl (\<lambda>x. fl (x ^ 2)) 4 4 2
   \<and> round_fl (moment_fl (\<lambda>x. fl (x ^ 2)) 4 3 2) 2 \<le> round_fl (moment_fl (\<lambda>x. fl (x ^ 2)) 4 4 2) 2"
proof -
  note t = moment_never_decreases[of "\<lambda>x. fl (x ^ 2)", OF rounded_square(1) rounded_square(2)]
  have a: "moment_fl (\<lambda>x. fl (x ^ 2)) 4 3 2 \<le> moment_fl (\<lambda>x. fl (x ^ 2)) 5 3 2"
    using t[where ?span1.0=4 and ?span2.0=5 and dead=3 and live=2, THEN conjunct1] by simp
  have b: "ultimate_load_fl 3 2 \<le> ultimate_load_fl 4 2
     \<and> moment_fl (\<lambda>x. fl (x ^ 2)) 4 3 2 \<le> moment_fl (\<lambda>x. fl (x ^ 2)) 4 4 2
     \<and> round_fl (moment_fl (\<lambda>x. fl (x ^ 2)) 4 3 2) 2 \<le> round_fl (moment_fl (\<lambda>x. fl (x ^ 2)) 4 4 2) 2"
    using t[where span_m=4 and ?dead1.0=3 and ?dead2.0=4 and live=2, THEN conjunct2, THEN conjunct1] by simp
  from a b show ?thesis by simp
qed

text \<open>
  C4 as stated fails, in two ways. With both loads zero (valid inputs), spans 4 and 5
  give the same moment, 0, in exact arithmetic and with double rounding alike. And with
  double rounding a strictly larger load need not give a strictly larger ultimate load or
  moment even when the loads are positive: with live load 2.0, the dead loads 0 and
  \<open>2\<^sup>-\<^sup>7\<^sup>0\<close> (both valid) give the same ultimate load and the same moment.
\<close>

theorem zero_load_counterexample:
  "map_sum id l_moment (slab_locals 4 0 0 ''C25'' ''460'' 25) = Inr 0
   \<and> map_sum id l_moment (slab_locals 5 0 0 ''C25'' ''460'' 25) = Inr 0
   \<and> map_sum id r_moment (calculate_slab_design 4 0 0 ''C25'' ''460'' 25) = Inr 0
   \<and> map_sum id r_moment (calculate_slab_design 5 0 0 ''C25'' ''460'' 25) = Inr 0
   \<and> moment_fl (\<lambda>x. fl (x ^ 2)) 4 0 0 = 0
   \<and> moment_fl (\<lambda>x. fl (x ^ 2)) 5 0 0 = 0
   \<and> (0 :: real) < 2 powr (- 70) \<and> (2 :: real) powr (- 70) \<le> 50
   \<and> ultimate_load_fl (2 powr (- 70)) 2 = ultimate_load_fl 0 2
   \<and> moment_fl (\<lambda>x. fl (x ^ 2)) 4 (2 powr (- 70)) 2 = moment_fl (\<lambda>x. fl (x ^ 2)) 4 0 2"
proof -
  have small: "(2 :: real) powr (- 70) \<le> 50"
  proof -
    have "(2 :: real) powr (- 70) \<le> 2 powr 0" by (rule powr_mono) simp_all
    then show ?thesis by simp
  qed
  have m: "moment_fl (\<lambda>x. fl (x ^ 2)) 4 (2 powr (- 70)) 2 = moment_fl (\<lambda>x. fl (x ^ 2)) 4 0 2"
    unfolding moment_fl_def by (simp only: sub_resolution_step)
  show ?thesis using zero_load_moment zero_load_fl(2) small sub_resolution_step m by simp
qed

text \<open>
  C5. The selection step: if some candidate is adequate, the selected one is adequate,
  no adequate candidate has a smaller bar area, and every adequate candidate before it in
  the list has a strictly larger bar area (first on ties). If the list is not empty and no
  candidate is adequate, the selected one has the greatest stored steel area, every
  candidate before it having a strictly smaller one. For the list that the loop builds
  from the bar table, with the required area at most the provided one, the candidate
  selected when none is adequate also has the strictly greatest full-precision steel area
  \<open>bar_area * 1000 / spacing\<close>.
\<close>

theorem selection_rule:
  "((\<exists>c\<in>set opts. o_adequate c) \<longrightarrow>
      (\<exists>pre s post. opts = pre @ s # post \<and> select_option opts = Inr s \<and> o_adequate s
           \<and> (\<forall>c\<in>set pre. o_adequate c \<longrightarrow> o_bar_area s < o_bar_area c)
           \<and> (\<forall>c\<in>set post. o_adequate c \<longrightarrow> o_bar_area s \<le> o_bar_area c)))
   \<and> (opts \<noteq> [] \<and> (\<forall>c\<in>set opts. \<not> o_adequate c) \<longrightarrow>
      (\<exists>pre s post. opts = pre @ s # post \<and> select_option opts = Inr s
           \<and> (\<forall>c\<in>set pre. o_As_actual c < o_As_actual s)
           \<and> (\<forall>c\<in>set post. o_As_actual c \<le> o_As_actual s)))
   \<and> (0 < Ap \<and> Ar \<le> Ap \<and> options_loop Ap Ar BAR_AREAS [] = Inr opts
        \<and> (\<forall>c\<in>set opts. \<not> o_adequate c) \<longrightarrow>
      (\<exists>s. select_option opts = Inr s \<and> s \<in> set opts
         \<and> (\<forall>c\<in>set opts. c \<noteq> s \<longrightarrow>
               o_bar_area c * 1000 / of_int (o_spacing c)
                 < o_bar_area s * 1000 / of_int (o_spacing s))))"
  using select_option_adequate[of opts] select_option_none_adequate[of opts]
    none_adequate_selected[of Ap Ar opts]
  by blast

theorem selection_rule_witness:
  "(\<exists>c\<in>set (projr (options_loop 270 270 BAR_AREAS [])). o_adequate c)
   \<and> (\<exists>pre s post. projr (options_loop 270 270 BAR_AREAS []) = pre @ s # post
         \<and> select_option (projr (options_loop 270 270 BAR_AREAS [])) = Inr s \<and> o_adequate s
         \<and> (\<forall>c\<in>set pre. o_adequate c \<longrightarrow> o_bar_area s < o_bar_area c)
         \<and> (\<forall>c\<in>set post. o_adequate c \<longrightarrow> o_bar_area s \<le> o_bar_area c))
   \<and> projr (options_loop 7000 7000 BAR_AREAS []) \<noteq> []
   \<and> \<not> (\<exists>c\<in>set (projr (options_loop 7000 7000 BAR_AREAS [])). o_adequate c)
   \<and> (\<exists>pre s post. projr (options_loop 7000 7000 BAR_AREAS []) = pre @ s # post
         \<and> select_option (projr (options_loop 7000 7000 BAR_AREAS [])) = Inr s
         \<and> (\<forall>c\<in>set pre. o_As_actual c < o_As_actual s)
         \<and> (\<forall>c\<in>set post. o_As_actual c \<le> o_As_actual s))
   \<and> (0 :: real) < 7000 \<and> (7000 :: real) \<le> 7000
   \<and> options_loop 7000 7000 BAR_AREAS [] = Inr (projr (options_loop 7000 7000 BAR_AREAS []))
   \<and> (\<exists>s. select_option (projr (options_loop 7000 7000 BAR_AREAS [])) = Inr s
         \<and> s \<in> set (projr (options_loop 7000 7000 BAR_AREAS []))
         \<and> (\<forall>c\<in>set (projr (options_loop 7000 7000 BAR_AREAS [])). c \<noteq> s \<longrightarrow>
               o_bar_area c * 1000 / of_int (o_spacing c)
                 < o_bar_area s * 1000 / of_int (o_spacing s)))"
proof -
  define A where "A = projr (options_loop 270 270 BAR_AREAS [])"
  define B where "B = projr (options_loop 7000 7000 BAR_AREAS [])"
  have a: "\<exists>c\<in>set A. o_adequate c" unfolding A_def options_270 by simp
  have b1: "B \<noteq> []" unfolding B_def options_7000 by simp
  have b2: "\<forall>c\<in>set B. \<not> o_adequate c" unfolding B_def options_7000 by simp
  have b3: "options_loop 7000 7000 BAR_AREAS [] = Inr B" unfolding B_def options_7000 by simp
  have b4: "(0 :: real) < 7000" "(7000 :: real) \<le> 7000" by simp_all
  note r1 = selection_rule[of A 0 0, THEN conjunct1, rule_format, OF a]
  note r2 = selection_rule[of B 0 0, THEN conjunct2, THEN conjunct1, rule_format, OF conjI[OF b1 b2]]
  note r3 = selection_rule[of B 7000 7000, THEN conjunct2, THEN conjunct2, rule_format,
      OF conjI[OF b4(1) conjI[OF b4(2) conjI[OF b3 b2]]]]
  from a r1 b1 b2 r2 b4 b3 r3 show ?thesis unfolding A_def B_def by blast
qed

text \<open>
  C6. Whenever a result is returned, the flag \<^verbatim>\<open>compression_reinforcement_needed\<close> is
  true iff K > 0.156, for the full-precision K = M * 10^6 / (1000 * d^2 * fck). When
  K \<le> 0.156 the argument of the square root is not negative, the square root does not
  raise, and z = min (d * (0.5 + sqrt (0.25 - K / 1.134))) (0.95 * d); when K > 0.156,
  z = 0.95 * d. The stored K and lever arm are these values rounded.
\<close>

theorem threshold_consistency:
  assumes "calculate_slab_design span_m dead_load live_load concrete_grade steel_grade cover = Inr r"
  shows "\<exists>L. slab_locals span_m dead_load live_load concrete_grade steel_grade cover = Inr L
     \<and> l_K L = l_moment L * 1000000 / (1000 * l_effective_depth L ^ 2 * of_int (l_fck L))
     \<and> r_compression_reinforcement_needed r = (0.156 < l_K L)
     \<and> (l_K L \<le> 0.156 \<longrightarrow> 0 \<le> 0.25 - l_K L / 1.134
           \<and> py_sqrt (0.25 - l_K L / 1.134) = Inr (sqrt (0.25 - l_K L / 1.134))
           \<and> l_z L = min (l_effective_depth L * (0.5 + sqrt (0.25 - l_K L / 1.134)))
                          (0.95 * l_effective_depth L))
     \<and> (0.156 < l_K L \<longrightarrow> l_z L = 0.95 * l_effective_depth L)
     \<and> r_K r = py_round (l_K L) 4 \<and> r_lever_arm r = py_round (l_z L) 1"
proof -
  from assms obtain L where
    L: "slab_locals span_m dead_load live_load concrete_grade steel_grade cover = Inr L"
    and r: "r = results_of span_m dead_load live_load concrete_grade steel_grade cover L"
    unfolding calculate_slab_design_Inr by blast
  have "r_compression_reinforcement_needed r = (0.156 < l_K L)" "r_K r = py_round (l_K L) 4"
    "r_lever_arm r = py_round (l_z L) 1"
    unfolding r by (simp_all add: results_of_def K_prime_def)
  with L threshold[OF L] show ?thesis by blast
qed

theorem threshold_consistency_witness:
  "(\<exists>r L. calculate_slab_design 4 3 2 ''C25'' ''460'' 25 = Inr r
     \<and> slab_locals 4 3 2 ''C25'' ''460'' 25 = Inr L
     \<and> l_K L \<le> 0.156 \<and> \<not> r_compression_reinforcement_needed r
     \<and> 0 \<le> 0.25 - l_K L / 1.134
     \<and> l_z L = min (l_effective_depth L * (0.5 + sqrt (0.25 - l_K L / 1.134)))
                    (0.95 * l_effective_depth L)
     \<and> r_lever_arm r = py_round (l_z L) 1)
   \<and> (\<exists>r L. calculate_slab_design 12 50 20 ''C25'' ''460'' 25 = Inr r
     \<and> slab_locals 12 50 20 ''C25'' ''460'' 25 = Inr L
     \<and> 0.156 < l_K L \<and> r_compression_reinforcement_needed r
     \<and> l_z L = 0.95 * 469)"
proof -
  from scenario_A_results obtain r where r: "calculate_slab_design 4 3 2 ''C25'' ''460'' 25 = Inr r"
    by blast
  from scenario_A_locals obtain L where L: "slab_locals 4 3 2 ''C25'' ''460'' 25 = Inr L"
    and K: "l_K L = 37 / 1296" by blast
  from threshold_consistency[OF r] obtain L' where L': "slab_locals 4 3 2 ''C25'' ''460'' 25 = Inr L'"
    and t: "r_compression_reinforcement_needed r = (0.156 < l_K L')"
      "l_K L' \<le> 0.156 \<longrightarrow> 0 \<le> 0.25 - l_K L' / 1.134
           \<and> py_sqrt (0.25 - l_K L' / 1.134) = Inr (sqrt (0.25 - l_K L' / 1.134))
           \<and> l_z L' = min (l_effective_depth L' * (0.5 + sqrt (0.25 - l_K L' / 1.134)))
                          (0.95 * l_effective_depth L')"
      "r_lever_arm r = py_round (l_z L') 1"
    by blast
  have e: "L' = L" using L L' by simp
  have k: "l_K L \<le> 0.156" unfolding K by simp
  from t k r L have A: "\<exists>r L. calculate_slab_design 4 3 2 ''C25'' ''460'' 25 = Inr r
     \<and> slab_locals 4 3 2 ''C25'' ''460'' 25 = Inr L
     \<and> l_K L \<le> 0.156 \<and> \<not> r_compression_reinforcement_needed r
     \<and> 0 \<le> 0.25 - l_K L / 1.134
     \<and> l_z L = min (l_effective_depth L * (0.5 + sqrt (0.25 - l_K L / 1.134)))
                    (0.95 * l_effective_depth L)
     \<and> r_lever_arm r = py_round (l_z L) 1" unfolding e by auto
  from heavy_run obtain H where H: "slab_locals 12 50 20 ''C25'' ''460'' 25 = Inr H"
    and Hd: "l_effective_depth H = 469" and HK: "l_K H = 1836000000 / 5499025000" by blast
  have hr: "calculate_slab_design 12 50 20 ''C25'' ''460'' 25 = Inr (results_of 12 50 20 ''C25'' ''460'' 25 H)"
    unfolding calculate_slab_design_def H by simp
  from threshold_consistency[OF hr] obtain H' where H': "slab_locals 12 50 20 ''C25'' ''460'' 25 = Inr H'"
    and u: "r_compression_reinforcement_needed (results_of 12 50 20 ''C25'' ''460'' 25 H) = (0.156 < l_K H')"
      "0.156 < l_K H' \<longrightarrow> l_z H' = 0.95 * l_effective_depth H'"
    by blast
  have e2: "H' = H" using H H' by simp
  have k2: "0.156 < l_K H" unfolding HK by simp
  from u k2 have "r_compression_reinforcement_needed (results_of 12 50 20 ''C25'' ''460'' 25 H)"
    "l_z H = 0.95 * 469" unfolding e2 Hd by auto
  with hr H k2 have B: "\<exists>r L. calculate_slab_design 12 50 20 ''C25'' ''460'' 25 = Inr r
     \<and> slab_locals 12 50 20 ''C25'' ''460'' 25 = Inr L
     \<and> 0.156 < l_K L \<and> r_compression_reinforcement_needed r
     \<and> l_z L = 0.95 * 469" by blast
  from A B show ?thesis by (rule conjI)
qed

text \<open>
  C7. Whenever a result is returned, the minimum steel area is 0.0013 * 1000 * slab depth,
  the provided steel area is the maximum of the required and the minimum area, and hence
  at least the minimum; this holds for the full-precision values and for the stored,
  rounded ones.
\<close>

theorem minimum_steel_floor:
  assumes "calculate_slab_design span_m dead_load live_load concrete_grade steel_grade cover = Inr r"
  shows "\<exists>L. slab_locals span_m dead_load live_load concrete_grade steel_grade cover = Inr L
     \<and> l_As_min L = 0.0013 * 1000 * of_int (l_slab_depth L)
     \<and> l_As_provided L = max (l_As_required L) (l_As_min L)
     \<and> l_As_min L \<le> l_As_provided L
     \<and> r_As_min r = 0.0013 * 1000 * of_int (r_slab_depth r)
     \<and> r_As_provided r = max (r_As_required r) (r_As_min r)
     \<and> r_As_min r \<le> r_As_provided r"
proof -
  from assms obtain L where
    L: "slab_locals span_m dead_load live_load concrete_grade steel_grade cover = Inr L"
    and r: "r = results_of span_m dead_load live_load concrete_grade steel_grade cover L"
    unfolding calculate_slab_design_Inr by blast
  note f = min_steel[OF L]
  have a: "r_As_min r = 0.0013 * 1000 * of_int (r_slab_depth r)"
    unfolding r using f(1,4) by (simp add: results_of_def)
  have b: "r_As_provided r = max (r_As_required r) (r_As_min r)"
    unfolding r using f(5) by (simp add: results_of_def)
  then have c: "r_As_min r \<le> r_As_provided r" by simp
  from L f(1,2,3) a b c show ?thesis by blast
qed

theorem minimum_steel_floor_witness:
  "\<exists>r. calculate_slab_design 4 3 2 ''C25'' ''460'' 25 = Inr r
     \<and> r_As_min r = 227.5
     \<and> r_As_provided r = max (r_As_required r) (r_As_min r)
     \<and> 227.5 \<le> r_As_provided r"
proof -
  from scenario_A_results obtain r where r: "calculate_slab_design 4 3 2 ''C25'' ''460'' 25 = Inr r"
    and sd: "r_slab_depth r = 175" by blast
  from minimum_steel_floor[OF r] have
    t: "r_As_min r = 0.0013 * 1000 * of_int (r_slab_depth r)"
      "r_As_provided r = max (r_As_required r) (r_As_min r)" "r_As_min r \<le> r_As_provided r"
    by blast+
  have m: "r_As_min r = 227.5" unfolding t(1) sd by simp
  have l: "227.5 \<le> r_As_provided r" using t(3) unfolding m .
  from r m t(2) l show ?thesis by blast
qed

text \<open>
  C8. For span > 0, the slab depth of a returned result is a positive multiple of 25 and at
  least the estimated depth span * 1000 / 25; it exceeds it by less than 25.
\<close>

theorem slab_depth_multiple_of_25:
  assumes "calculate_slab_design span_m dead_load live_load concrete_grade steel_grade cover = Inr r"
    and "0 < span_m"
  shows "0 < r_slab_depth r \<and> 25 dvd r_slab_depth r
     \<and> span_m * 1000 / 25 \<le> of_int (r_slab_depth r)
     \<and> of_int (r_slab_depth r) < span_m * 1000 / 25 + 25
     \<and> (\<exists>L. slab_locals span_m dead_load live_load concrete_grade steel_grade cover = Inr L
           \<and> l_estimated_depth L = span_m * 1000 / 25 \<and> l_slab_depth L = r_slab_depth r)"
proof -
  from assms(1) obtain L where
    L: "slab_locals span_m dead_load live_load concrete_grade steel_grade cover = Inr L"
    and r: "r = results_of span_m dead_load live_load concrete_grade steel_grade cover L"
    unfolding calculate_slab_design_Inr by blast
  have s: "r_slab_depth r = l_slab_depth L" unfolding r by (simp add: results_of_def)
  note f = slab_depth_ceiling[OF L assms(2)]
  from f L show ?thesis unfolding s by auto
qed

theorem slab_depth_multiple_of_25_witness:
  "\<exists>r. calculate_slab_design 4 3 2 ''C25'' ''460'' 25 = Inr r \<and> (0 :: real) < 4
     \<and> r_slab_depth r = 175 \<and> (25 :: int) dvd 175 \<and> (4 * 1000 / 25 :: real) \<le> 175"
proof -
  from scenario_A_results obtain r where r: "calculate_slab_design 4 3 2 ''C25'' ''460'' 25 = Inr r"
    and sd: "r_slab_depth r = 175" by blast
  have p: "(0 :: real) < 4" by simp
  from slab_depth_multiple_of_25[OF r p] r sd show ?thesis by auto
qed

text \<open>
  C9. Whenever a result is returned, the candidate list has one entry per bar of the table,
  in table order, and every candidate's spacing is floor(raw spacing / 25) * 25 clamped
  into 75..300, where raw spacing = bar area * 1000 / provided steel area: a multiple of
  25 between 75 and 300. Its steel area is bar area * 1000 / spacing: that value decides
  adequacy, and the stored field is that value rounded to one decimal.
\<close>

theorem candidate_spacing:
  assumes "calculate_slab_design span_m dead_load live_load concrete_grade steel_grade cover = Inr r"
  shows "\<exists>L. slab_locals span_m dead_load live_load concrete_grade steel_grade cover = Inr L
     \<and> 0 < l_As_provided L
     \<and> map (\<lambda>c. (o_bar_size c, o_bar_area c)) (r_reinforcement_options r) = BAR_AREAS
     \<and> (\<forall>c\<in>set (r_reinforcement_options r).
           o_spacing c = max 75 (min (\<lfloor>(o_bar_area c * 1000 / l_As_provided L) / 25\<rfloor> * 25) 300)
         \<and> 25 dvd o_spacing c \<and> 75 \<le> o_spacing c \<and> o_spacing c \<le> 300
         \<and> o_As_actual c = py_round (o_bar_area c * 1000 / of_int (o_spacing c)) 1
         \<and> o_adequate c = (l_As_required L \<le> o_bar_area c * 1000 / of_int (o_spacing c)))"
proof -
  from assms obtain L where
    L: "slab_locals span_m dead_load live_load concrete_grade steel_grade cover = Inr L"
    and r: "r = results_of span_m dead_load live_load concrete_grade steel_grade cover L"
    unfolding calculate_slab_design_Inr by blast
  have o: "r_reinforcement_options r = map (evaluate_bar (l_As_provided L) (l_As_required L)) BAR_AREAS"
    unfolding r using options_of_run(2)[OF L] by (simp add: results_of_def)
  have n: "map (\<lambda>c. (o_bar_size c, o_bar_area c)) (r_reinforcement_options r) = BAR_AREAS"
    unfolding o by (simp add: evaluate_bar_fields comp_def)
  have "\<forall>c\<in>set (r_reinforcement_options r).
           o_spacing c = max 75 (min (\<lfloor>(o_bar_area c * 1000 / l_As_provided L) / 25\<rfloor> * 25) 300)
         \<and> 25 dvd o_spacing c \<and> 75 \<le> o_spacing c \<and> o_spacing c \<le> 300
         \<and> o_As_actual c = py_round (o_bar_area c * 1000 / of_int (o_spacing c)) 1
         \<and> o_adequate c = (l_As_required L \<le> o_bar_area c * 1000 / of_int (o_spacing c))"
    unfolding o using candidate_properties[of _ "l_As_provided L" "l_As_required L"] by blast
  with L options_of_run(1)[OF L] n show ?thesis by blast
qed

theorem candidate_spacing_witness:
  "\<exists>r c. calculate_slab_design 4 3 2 ''C25'' ''460'' 25 = Inr r
     \<and> c \<in> set (r_reinforcement_options r) \<and> o_bar_size c = ''Y8''
     \<and> 25 dvd o_spacing c \<and> 75 \<le> o_spacing c \<and> o_spacing c \<le> 300
     \<and> o_As_actual c = py_round (o_bar_area c * 1000 / of_int (o_spacing c)) 1"
proof -
  from scenario_A_results obtain r where r: "calculate_slab_design 4 3 2 ''C25'' ''460'' 25 = Inr r"
    by blast
  from candidate_spacing[OF r] have
    n: "map (\<lambda>c. (o_bar_size c, o_bar_area c)) (r_reinforcement_options r) = BAR_AREAS"
    by (elim exE conjE)
  from candidate_spacing[OF r] have
    a: "\<forall>c\<in>set (r_reinforcement_options r).
         25 dvd o_spacing c \<and> 75 \<le> o_spacing c \<and> o_spacing c \<le> 300
         \<and> o_As_actual c = py_round (o_bar_area c * 1000 / of_int (o_spacing c)) 1"
    by (elim exE conjE) fast
  from n obtain c cs where cs: "r_reinforcement_options r = c # cs" and c: "o_bar_size c = ''Y8''"
    unfolding BAR_AREAS_def by auto
  have m: "c \<in> set (r_reinforcement_options r)" unfolding cs by simp
  from a[rule_format, OF m] r m c show ?thesis by blast
qed

text \<open>
  C10 (amended). For known grades and a span, loads and cover that are numbers, with
  span > 0: the slab depth is at least 25 and the minimum steel area at least 32.5, so
  that for every required steel area that is a number the provided area is positive, the
  loop evaluates all six bars without a division by zero, and the selection returns one of
  the six candidates. The function never raises \<^verbatim>\<open>ValueError\<close> (the exception of \<^verbatim>\<open>min\<close>
  and \<^verbatim>\<open>max\<close> on an empty list), and every result it returns has six candidates and a
  positive provided steel area.
\<close>

theorem selection_safe_for_numbers:
  assumes "CONCRETE_GRADES concrete_grade = Some cp" and "STEEL_GRADES steel_grade = Some sp"
    and "0 < span_m"
  shows "25 \<le> \<lceil>(span_m * 1000) / 25 / 25\<rceil> * 25
     \<and> 32.5 \<le> 0.0013 * 1000 * real_of_int (\<lceil>(span_m * 1000) / 25 / 25\<rceil> * 25)
     \<and> (\<forall>As_required.
           flt (Num 0)
             (fmax (Num As_required)
                (Num (0.0013 * 1000 * real_of_int (\<lceil>(span_m * 1000) / 25 / 25\<rceil> * 25))))
         \<and> (\<exists>opts s.
               options_loop_py
                 (fmax (Num As_required)
                    (Num (0.0013 * 1000 * real_of_int (\<lceil>(span_m * 1000) / 25 / 25\<rceil> * 25))))
                 (Num As_required) BAR_AREAS [] = Inr opts
             \<and> map o_bar_size opts = map fst BAR_AREAS \<and> length opts = 6
             \<and> select_option opts = Inr s \<and> s \<in> set opts))
     \<and> calculate_slab_design_py (Num span_m) (Num dead_load) (Num live_load)
           concrete_grade steel_grade (Num cover) \<noteq> Inl ValueError
     \<and> (\<forall>r. calculate_slab_design_py (Num span_m) (Num dead_load) (Num live_load)
                concrete_grade steel_grade (Num cover) = Inr r
           \<longrightarrow> (\<exists>a p. q_As_min r = Num a \<and> 32.5 \<le> a \<and> q_As_provided r = Num p \<and> 0 < p)
             \<and> length (q_reinforcement_options r) = 6
             \<and> q_selected_reinforcement r \<in> set (q_reinforcement_options r))"
proof -
  note t = selection_never_empty[OF assms, of dead_load live_load cover]
  let ?c = "calculate_slab_design span_m dead_load live_load concrete_grade steel_grade cover"
  have s: "\<forall>As_required.
           flt (Num 0)
             (fmax (Num As_required)
                (Num (0.0013 * 1000 * real_of_int (\<lceil>(span_m * 1000) / 25 / 25\<rceil> * 25))))
         \<and> (\<exists>opts s.
               options_loop_py
                 (fmax (Num As_required)
                    (Num (0.0013 * 1000 * real_of_int (\<lceil>(span_m * 1000) / 25 / 25\<rceil> * 25))))
                 (Num As_required) BAR_AREAS [] = Inr opts
             \<and> map o_bar_size opts = map fst BAR_AREAS \<and> length opts = 6
             \<and> select_option opts = Inr s \<and> s \<in> set opts)"
    using t unfolding fmax_Num options_loop_py_Num flt.simps by blast
  have v: "calculate_slab_design_py (Num span_m) (Num dead_load) (Num live_load)
           concrete_grade steel_grade (Num cover) \<noteq> Inl ValueError"
    unfolding calculate_slab_design_py_Num using t by (cases ?c) auto
  have r: "(\<exists>a p. q_As_min r = Num a \<and> 32.5 \<le> a \<and> q_As_provided r = Num p \<and> 0 < p)
             \<and> length (q_reinforcement_options r) = 6
             \<and> q_selected_reinforcement r \<in> set (q_reinforcement_options r)"
    if c: "calculate_slab_design_py (Num span_m) (Num dead_load) (Num live_load)
                concrete_grade steel_grade (Num cover) = Inr r" for r
  proof -
    from c obtain r' where r': "?c = Inr r'" and e: "r = lift_results r'"
      unfolding calculate_slab_design_py_Num by (cases ?c) auto
    from t r' have f: "32.5 \<le> r_As_min r'" "0 < r_As_provided r'"
      "length (r_reinforcement_options r') = 6"
      "r_selected_reinforcement r' \<in> set (r_reinforcement_options r')" by blast+
    then show ?thesis unfolding e by (simp add: lift_results_def)
  qed
  from t s v r show ?thesis by blast
qed

theorem selection_safe_for_numbers_witness:
  "CONCRETE_GRADES ''C25'' = Some \<lparr>fck = 25, fctm = 2.6\<rparr>
   \<and> STEEL_GRADES ''460'' = Some \<lparr>fy = 460, Es = 200000\<rparr> \<and> (0 :: real) < 4
   \<and> calculate_slab_design_py (Num 4) (Num 3) (Num 2) ''C25'' ''460'' (Num 25) \<noteq> Inl ValueError
   \<and> (\<exists>r a p. calculate_slab_design_py (Num 4) (Num 3) (Num 2) ''C25'' ''460'' (Num 25) = Inr r
         \<and> q_As_min r = Num a \<and> 32.5 \<le> a \<and> q_As_provided r = Num p \<and> 0 < p
         \<and> length (q_reinforcement_options r) = 6
         \<and> q_selected_reinforcement r \<in> set (q_reinforcement_options r))"
proof -
  have p: "(0 :: real) < 4" by simp
  note t = selection_safe_for_numbers[OF C25_known S460_known p, of 3 2 25]
  from scenario_A_results obtain r' where "calculate_slab_design 4 3 2 ''C25'' ''460'' 25 = Inr r'"
    by blast
  then have r: "calculate_slab_design_py (Num 4) (Num 3) (Num 2) ''C25'' ''460'' (Num 25)
      = Inr (lift_results r')"
    unfolding calculate_slab_design_py_Num by simp
  from t r C25_known S460_known p show ?thesis by blast
qed

text \<open>
  C10 as stated fails: with span 4, live load 2, cover 25, known grades and the dead load
  NaN, the required steel area is NaN, \<^verbatim>\<open>max(nan, 227.5)\<close> is NaN, the guard
  \<^verbatim>\<open>As_provided > 0\<close> is false for every bar, the candidate list is empty and the selection
  raises \<^verbatim>\<open>ValueError\<close>.
\<close>

theorem nan_load_counterexample:
  "calculate_slab_design_py (Num 4) NaN (Num 2) ''C25'' ''460'' (Num 25) = Inl ValueError
   \<and> fmax NaN (Num 227.5) = NaN
   \<and> options_loop_py NaN NaN BAR_AREAS [] = Inr []
   \<and> select_option [] = Inl ValueError"
  unfolding calculate_slab_design_py_def nan_load_locals using nan_load_steps by simp

end
